theory Spec2Isabelle
  imports Main "HOL-Library.Word"
begin

section \<open>Leg-addressed dense tensors (namespace TAT of main.cpp)\<close>

text \<open>
  A shallow embedding of \<^verbatim>\<open>TAT::legs::Legs\<close> (the leg registry) and of
  \<^verbatim>\<open>TAT::tensor::Tensor\<close> (the dense tensor).

  Conventions of the embedding.
  \<^item> \<^verbatim>\<open>Size\<close> is \<^verbatim>\<open>unsigned long\<close>, taken as on an LP64 platform: a 64-bit word
    whose arithmetic wraps around.
    Extents and positions are values chosen by the caller, and two extents of \<open>2 ^ 32\<close>
    already wrap the element count, so the wrap-around is part of the model.
  \<^item> \<^verbatim>\<open>Rank\<close> is \<^verbatim>\<open>unsigned int\<close>: a natural number below \<open>2 ^ 32\<close>; the
    constructor narrows the length of the extents list to it, which is written out as
    \<open>mod 2 ^ 32\<close>.
  \<^item> The \<^verbatim>\<open>int\<close> loop counter of \<^verbatim>\<open>get_index\<close> and \<^verbatim>\<open>Legs::IdType\<close> (\<^verbatim>\<open>int\<close>)
    count the axes of a tensor and the names registered so far. They are modelled as
    \<open>nat\<close> and \<open>int\<close>: the model covers tensors of fewer than \<open>2 ^ 31\<close> axes and fewer
    than \<open>2 ^ 31\<close> registered names, where neither counter overflows.
  \<^item> \<^verbatim>\<open>std::vector\<close> is a list. The unchecked \<^verbatim>\<open>operator[]\<close> and the unchecked
    iterators of \<^verbatim>\<open>std::transform\<close> have undefined behaviour out of range; the model
    returns \<open>undefined_behaviour\<close> there. \<^verbatim>\<open>std::map::at\<close> throws
    \<^verbatim>\<open>std::out_of_range\<close>; the model returns \<open>out_of_range\<close>.
  \<^item> The buffer \<^verbatim>\<open>data(size)\<close> has a size chosen by the caller, up to \<open>2 ^ 64 - 1\<close>
    elements, and its allocation can fail: with \<^verbatim>\<open>std::length_error\<close> above the
    vector's \<^verbatim>\<open>max_size()\<close>, with \<^verbatim>\<open>std::bad_alloc\<close> when the allocator cannot
    supply it. Both limits are parameters of the model. The short vectors of extents,
    legs and positions and the nodes of the registry's maps are taken to be allocatable.
  \<^item> A non-const member function returns the state of \<^verbatim>\<open>*this\<close> after the call,
    next to its result. Where a call can throw, its outcome carries the state of
    \<^verbatim>\<open>*this\<close> on the exception path as well.
\<close>

subsection \<open>Types\<close>

type_synonym Size = "64 word"

type_synonym Rank = nat

text \<open>The exceptions \<^verbatim>\<open>std::out_of_range\<close>, \<^verbatim>\<open>std::length_error\<close> and
  \<^verbatim>\<open>std::bad_alloc\<close>, and undefined behaviour.\<close>

datatype error = out_of_range | length_error | bad_alloc | undefined_behaviour

text \<open>The outcome of a call of a member function: it returns a result, it throws, both
  with the state of \<^verbatim>\<open>*this\<close> after the call, or its behaviour is undefined and nothing
  is known afterwards.\<close>

datatype ('r, 's) outcome = Returns 'r 's | Throws error 's | Undefined

text \<open>\<^verbatim>\<open>class Legs { IdType id = -1; ... }\<close>; the constructor \<open>Legs i\<close> is
  \<^verbatim>\<open>explicit Legs(IdType i)\<close>, which leaves the registry alone.\<close>

datatype Legs = Legs (id_Legs: int)

text \<open>The static members \<^verbatim>\<open>Legs::total\<close> (here \<open>total_Legs\<close>),
  \<^verbatim>\<open>Legs::name2id\<close> and \<^verbatim>\<open>Legs::id2name\<close>.\<close>

record Legs_static =
  total_Legs :: int
  name2id :: "string \<rightharpoonup> int"
  id2name :: "int \<rightharpoonup> string"

record 'a Tensor =
  rank :: Rank
  size_Tensor :: Size
  dims :: "Size list"
  legs :: "Legs list"
  data :: "'a list"

subsection \<open>Construction\<close>

text \<open>\<^verbatim>\<open>std::accumulate(a.begin(), a.end(), Size(1), std::multiplies<Size>())\<close>\<close>

definition accumulate_multiplies :: "Size list \<Rightarrow> Size" where
  "accumulate_multiplies a = foldl (\<lambda>acc x. acc * x) 1 a"

text \<open>\<^verbatim>\<open>std::vector<T>(n)\<close>: \<open>n\<close> value-initialised elements, or an exception. What decides
  between them is not part of the repository and is a parameter of the model:
  \<open>max_size\<close> is \<^verbatim>\<open>std::vector<T>::max_size()\<close> of the implementation (at most
  \<open>(2 ^ 63 - 1) div sizeof(T)\<close> on an LP64 platform), \<open>available\<close> is the number of
  elements of \<open>T\<close> that the allocator can supply when the constructor runs.\<close>

record allocator =
  max_size :: nat
  available :: nat

definition vector_n :: "allocator \<Rightarrow> nat \<Rightarrow> error + ('a::zero) list" where
  "vector_n m n =
     (if max_size m < n then Inl length_error
      else if available m < n then Inl bad_alloc
      else Inr (replicate n 0))"

text \<open>
  \<^verbatim>\<open>
  Tensor(A&& a, B&& b) :
    rank(a.size()),
    size(std::accumulate(a.begin(), a.end(), Size(1), std::multiplies<Size>())),
    dims(std::forward<A>(a)),
    legs(std::forward<B>(b)),
    data(size)
  {}
  \<close>
  \<^verbatim>\<open>rank(a.size())\<close> narrows the length of the list to \<^verbatim>\<open>unsigned int\<close>, that is, modulo
  \<open>2 ^ 32\<close>. An exception of \<^verbatim>\<open>data(size)\<close> leaves the constructor, and there is no
  tensor.
\<close>

definition Tensor :: "allocator \<Rightarrow> Size list \<Rightarrow> Legs list \<Rightarrow> error + ('a::zero) Tensor" where
  "Tensor m a b =
     (case vector_n m (unat (accumulate_multiplies a)) of
        Inl e \<Rightarrow> Inl e
      | Inr d \<Rightarrow>
          Inr \<lparr> rank = length a mod 2 ^ 32,
                size_Tensor = accumulate_multiplies a,
                dims = a,
                legs = b,
                data = d \<rparr>)"

subsection \<open>Index computation\<close>

text \<open>
  \<^verbatim>\<open>
  Size index = 0;
  for(int i=0; i<rank; i++){ index = index*dims[i] + position[i]; }
  return index;
  \<close>
\<close>

function get_index_loop :: "'a Tensor \<Rightarrow> Size list \<Rightarrow> nat \<Rightarrow> Size \<Rightarrow> error + Size" where
  "get_index_loop t position i index =
     (if i < rank t then
        (if i < length (dims t) \<and> i < length position
         then get_index_loop t position (Suc i) (index * dims t ! i + position ! i)
         else Inl undefined_behaviour)
      else Inr index)"
  by pat_completeness auto
termination
  by (relation "measure (\<lambda>(t, position, i, index). rank t - i)") auto

definition get_index :: "'a Tensor \<Rightarrow> Size list \<Rightarrow> error + Size" where
  "get_index t position = get_index_loop t position 0 0"

declare get_index_loop.simps [simp del]

text \<open>
  \<^verbatim>\<open>
  std::vector<Size> res;
  std::transform(legs.begin(), legs.end(), std::back_inserter(res),
                 [&dict](const Legs& l){return dict.at(l);});
  return res;
  \<close>
  \<^verbatim>\<open>std::map<Legs, Size>\<close> orders its keys by \<^verbatim>\<open>operator<\<close> on the id, so two keys are
  the same key exactly when their ids are equal: a map \<open>Legs \<rightharpoonup> Size\<close>.
\<close>

fun get_position_loop :: "(Legs \<rightharpoonup> Size) \<Rightarrow> Legs list \<Rightarrow> Size list \<Rightarrow> error + Size list" where
  "get_position_loop dict [] res = Inr res"
| "get_position_loop dict (l # ls) res =
     (case dict l of
        None \<Rightarrow> Inl out_of_range
      | Some v \<Rightarrow> get_position_loop dict ls (res @ [v]))"

definition get_position :: "'a Tensor \<Rightarrow> (Legs \<rightharpoonup> Size) \<Rightarrow> error + Size list" where
  "get_position t dict = get_position_loop dict (legs t) []"

subsection \<open>Element access\<close>

text \<open>\<^verbatim>\<open>operator()(const std::vector<Size>& position)\<close> returns
  \<^verbatim>\<open>data[get_index(position)]\<close>: \<open>at_position\<close> reads through the returned reference,
  \<open>assign_position\<close> is \<^verbatim>\<open>t(position) = v\<close> on the non-const overload.\<close>

definition at_position :: "'a Tensor \<Rightarrow> Size list \<Rightarrow> error + 'a" where
  "at_position t position =
     (case get_index t position of
        Inl e \<Rightarrow> Inl e
      | Inr i \<Rightarrow> if unat i < length (data t) then Inr (data t ! unat i)
                 else Inl undefined_behaviour)"

definition assign_position :: "'a Tensor \<Rightarrow> Size list \<Rightarrow> 'a \<Rightarrow> error + 'a Tensor" where
  "assign_position t position v =
     (case get_index t position of
        Inl e \<Rightarrow> Inl e
      | Inr i \<Rightarrow> if unat i < length (data t) then Inr (t\<lparr>data := (data t)[unat i := v]\<rparr>)
                 else Inl undefined_behaviour)"

text \<open>\<^verbatim>\<open>operator()(const std::map<Legs, Size>& dict)\<close> returns
  \<^verbatim>\<open>data[get_index(get_position(dict))]\<close>.\<close>

definition at_dict :: "'a Tensor \<Rightarrow> (Legs \<rightharpoonup> Size) \<Rightarrow> error + 'a" where
  "at_dict t dict =
     (case get_position t dict of
        Inl e \<Rightarrow> Inl e
      | Inr position \<Rightarrow> at_position t position)"

definition assign_dict :: "'a Tensor \<Rightarrow> (Legs \<rightharpoonup> Size) \<Rightarrow> 'a \<Rightarrow> error + 'a Tensor" where
  "assign_dict t dict v =
     (case get_position t dict of
        Inl e \<Rightarrow> Inl e
      | Inr position \<Rightarrow> assign_position t position v)"

text \<open>The same three calls with the state of \<^verbatim>\<open>*this\<close> after the call.
  \<^verbatim>\<open>get_position\<close> is a const member and writes nothing, whether it returns or throws.
  Both overloads of \<^verbatim>\<open>operator()\<close> evaluate \<^verbatim>\<open>get_position(dict)\<close> first, so that an
  exception of \<^verbatim>\<open>std::map::at\<close> leaves them before \<^verbatim>\<open>data\<close> is touched; the only write
  is the assignment through the returned reference.\<close>

definition get_position_call ::
  "(Legs \<rightharpoonup> Size) \<Rightarrow> 'a Tensor \<Rightarrow> (Size list, 'a Tensor) outcome" where
  "get_position_call dict t =
     (case get_position_loop dict (legs t) [] of
        Inl e \<Rightarrow> Throws e t
      | Inr res \<Rightarrow> Returns res t)"

definition at_dict_call :: "(Legs \<rightharpoonup> Size) \<Rightarrow> 'a Tensor \<Rightarrow> ('a, 'a Tensor) outcome" where
  "at_dict_call dict t =
     (case get_position_call dict t of
        Throws e s \<Rightarrow> Throws e s
      | Undefined \<Rightarrow> Undefined
      | Returns position s \<Rightarrow>
          (case get_index s position of
             Inl e \<Rightarrow> Undefined
           | Inr i \<Rightarrow> if unat i < length (data s) then Returns (data s ! unat i) s
                      else Undefined))"

definition assign_dict_call ::
  "(Legs \<rightharpoonup> Size) \<Rightarrow> 'a \<Rightarrow> 'a Tensor \<Rightarrow> (unit, 'a Tensor) outcome" where
  "assign_dict_call dict v t =
     (case get_position_call dict t of
        Throws e s \<Rightarrow> Throws e s
      | Undefined \<Rightarrow> Undefined
      | Returns position s \<Rightarrow>
          (case get_index s position of
             Inl e \<Rightarrow> Undefined
           | Inr i \<Rightarrow> if unat i < length (data s)
                      then Returns () (s\<lparr>data := (data s)[unat i := v]\<rparr>)
                      else Undefined))"

subsection \<open>Bulk operations\<close>

text \<open>\<^verbatim>\<open>std::generate(data.begin(), data.end(), g)\<close> assigns \<^verbatim>\<open>g()\<close> to each element
  from first to last. The producer is a step function on its own state (the
  \<^verbatim>\<open>static int i\<close> of the producer in \<^verbatim>\<open>main\<close>); the final producer state is returned
  next to the tensor.\<close>

fun generate_loop :: "('s \<Rightarrow> 'a \<times> 's) \<Rightarrow> 's \<Rightarrow> 'a list \<Rightarrow> 'a list \<times> 's" where
  "generate_loop g s [] = ([], s)"
| "generate_loop g s (x # xs) =
     (case g s of (v, s') \<Rightarrow>
        (case generate_loop g s' xs of (vs, s'') \<Rightarrow> (v # vs, s'')))"

definition generate :: "('s \<Rightarrow> 'a \<times> 's) \<Rightarrow> 's \<Rightarrow> 'a Tensor \<Rightarrow> 'a Tensor \<times> 's" where
  "generate g s t = (case generate_loop g s (data t) of (d, s') \<Rightarrow> (t\<lparr>data := d\<rparr>, s'))"

text \<open>\<^verbatim>\<open>std::transform(data.begin(), data.end(), data.begin(), f)\<close>\<close>

definition inplace_op_unary :: "('a \<Rightarrow> 'a) \<Rightarrow> 'a Tensor \<Rightarrow> 'a Tensor" where
  "inplace_op_unary f t = t\<lparr>data := map f (data t)\<rparr>"

text \<open>\<^verbatim>\<open>std::transform\<close> writes its results through an unchecked output iterator: the
  values \<open>vs\<close> replace the first \<open>length vs\<close> elements of the destination, which must have
  room for them.\<close>

definition transform_into :: "'a list \<Rightarrow> 'a list \<Rightarrow> error + 'a list" where
  "transform_into vs dst =
     (if length vs \<le> length dst then Inr (vs @ drop (length vs) dst)
      else Inl undefined_behaviour)"

text \<open>
  \<^verbatim>\<open>
  auto res = Tensor<T2>(dims, legs);
  std::transform(data.begin(), data.end(), res.data.begin(), f);
  return res;
  \<close>
  The constructor of \<^verbatim>\<open>res\<close> allocates a buffer of elements of \<open>T2\<close> and can throw;
  nothing has been written then. \<^verbatim>\<open>std::transform\<close> reads \<^verbatim>\<open>data\<close> and writes
  \<^verbatim>\<open>res.data\<close> only.
\<close>

definition outplace_op_unary ::
  "allocator \<Rightarrow> ('a \<Rightarrow> 'b::zero) \<Rightarrow> 'a Tensor \<Rightarrow> ('b Tensor, 'a Tensor) outcome" where
  "outplace_op_unary m f t =
     (case Tensor m (dims t) (legs t) of
        Inl e \<Rightarrow> Throws e t
      | Inr res \<Rightarrow>
          (case transform_into (map f (data t)) (data res) of
             Inl e \<Rightarrow> Undefined
           | Inr d \<Rightarrow> Returns (res\<lparr>data := d\<rparr>) t))"

text \<open>\<^verbatim>\<open>std::transform(data.begin(), data.end(), t2.data.begin(), data.begin(), f)\<close>
  reads \<^verbatim>\<open>t2.data\<close> at every index of \<^verbatim>\<open>data\<close>. Element \<open>i\<close> is read before it is
  written and no other element is written at that step, so the result is the same when
  \<^verbatim>\<open>t2\<close> is \<^verbatim>\<open>*this\<close>.\<close>

definition inplace_op_binary :: "('a \<Rightarrow> 'b \<Rightarrow> 'a) \<Rightarrow> 'a Tensor \<Rightarrow> 'b Tensor \<Rightarrow> error + 'a Tensor" where
  "inplace_op_binary f t t2 =
     (if length (data t) \<le> length (data t2)
      then Inr (t\<lparr>data := map2 f (data t) (data t2)\<rparr>)
      else Inl undefined_behaviour)"

text \<open>
  \<^verbatim>\<open>
  template<class T1, class T2, class T>
  auto outplace_op_binary(std:function<T(T1, T2)> f, const Tensor<T1>& t1, const Tensor<T2>& t2) {
    auto res = Tensor<T>(t1.dims, t1.legs);
    std::transform(t1.data.begin(), t1.data.end(), t2.data.begin(), res.data.begin(), f);
    return resl
  }
  \<close>
  The last member of the class is ill-formed as it is written: \<^verbatim>\<open>std:function\<close> is not a
  type, \<^verbatim>\<open>return resl\<close> names nothing that is declared and has no semicolon, and the
  template parameter \<^verbatim>\<open>T\<close> redeclares the parameter \<^verbatim>\<open>T\<close> of the class. The program
  has no such function, and the embedding has none.
\<close>

subsection \<open>Leg registry\<close>

text \<open>The initialisers of the static members: \<^verbatim>\<open>total = 0\<close>, both maps empty.\<close>

definition Legs_static_init :: Legs_static where
  "Legs_static_init = \<lparr> total_Legs = 0, name2id = Map.empty, id2name = Map.empty \<rparr>"

text \<open>
  \<^verbatim>\<open>
  explicit Legs(const std::string& name) {
    try { id = name2id.at(name); }
    catch (const std::out_of_range& e) {
      id = total++; name2id[name] = id; id2name[id] = name; }
  }
  \<close>
  The result is the constructed object and the static members after the call.
\<close>

definition Legs_name :: "string \<Rightarrow> Legs_static \<Rightarrow> Legs \<times> Legs_static" where
  "Legs_name name s =
     (case name2id s name of
        Some i \<Rightarrow> (Legs i, s)
      | None \<Rightarrow>
          (let i = total_Legs s in
           (Legs i, s\<lparr> total_Legs := total_Legs s + 1,
                       name2id := (name2id s)(name \<mapsto> i),
                       id2name := (id2name s)(i \<mapsto> name) \<rparr>)))"

text \<open>A run of the program that constructs \<^verbatim>\<open>Legs(name)\<close> for each of the names in turn
  (as the definitions of namespace \<^verbatim>\<open>legs_name\<close> do before \<^verbatim>\<open>main\<close> starts).\<close>

definition Legs_names :: "string list \<Rightarrow> Legs_static \<Rightarrow> Legs_static" where
  "Legs_names names s = fold (\<lambda>name s'. snd (Legs_name name s')) names s"

text \<open>\<^verbatim>\<open>operator==\<close>, \<^verbatim>\<open>operator!=\<close> and \<^verbatim>\<open>operator<\<close> compare ids.\<close>

definition Legs_eq :: "Legs \<Rightarrow> Legs \<Rightarrow> bool" where
  "Legs_eq a b = (id_Legs a = id_Legs b)"

definition Legs_neq :: "Legs \<Rightarrow> Legs \<Rightarrow> bool" where
  "Legs_neq a b = (id_Legs a \<noteq> id_Legs b)"

definition Legs_less :: "Legs \<Rightarrow> Legs \<Rightarrow> bool" where
  "Legs_less a b = (id_Legs a < id_Legs b)"

text \<open>\<^verbatim>\<open>std::ostream::operator<<(int)\<close> with the stream's default flags: decimal digits,
  a minus sign in front of a negative value.\<close>

function show_nat :: "nat \<Rightarrow> string" where
  "show_nat n =
     (if n < 10 then [''0123456789'' ! n]
      else show_nat (n div 10) @ [''0123456789'' ! (n mod 10)])"
  by pat_completeness auto
termination
  by (relation "measure (\<lambda>n. n)") auto

declare show_nat.simps [simp del]

definition show_int :: "int \<Rightarrow> string" where
  "show_int i = (if i < 0 then CHR ''-'' # show_nat (nat (- i)) else show_nat (nat i))"

text \<open>
  \<^verbatim>\<open>
  std::ostream& operator<<(std::ostream& out, const Legs& value) {
    try { return out << Legs::id2name.at(value.id); }
    catch (const std::out_of_range& e) { return out << "UserDefinedLeg" << value.id; }
  }
  \<close>
  The stream is the text written to it so far.
\<close>

definition ostream_Legs :: "Legs_static \<Rightarrow> string \<Rightarrow> Legs \<Rightarrow> string" where
  "ostream_Legs s out v =
     (case id2name s (id_Legs v) of
        Some name \<Rightarrow> out @ name
      | None \<Rightarrow> (out @ ''UserDefinedLeg'') @ show_int (id_Legs v))"

text \<open>The text that \<^verbatim>\<open>operator<<\<close> writes for a leg: the \<open>display\<close> of the specification.\<close>

definition display :: "Legs_static \<Rightarrow> Legs \<Rightarrow> string" where
  "display s v = ostream_Legs s [] v"

subsection \<open>Invariants and specification-level definitions\<close>

text \<open>What the constructor establishes and every operation keeps: one extent and one leg
  per axis, \<^verbatim>\<open>size\<close> the product of the extents in \<^verbatim>\<open>Size\<close> arithmetic, and a buffer of
  \<^verbatim>\<open>size\<close> elements.\<close>

definition tensor_inv :: "'a Tensor \<Rightarrow> bool" where
  "tensor_inv t \<longleftrightarrow>
     rank t = length (dims t) \<and> length (legs t) = rank t \<and>
     size_Tensor t = accumulate_multiplies (dims t) \<and>
     length (data t) = unat (size_Tensor t)"

text \<open>The strides of the specification, in its words: \<open>stride[rank-1] = 1\<close> and
  \<open>stride[i] = stride[i+1] * extents[i+1]\<close>; and its row-major flat index
  \<open>\<Sum>i. position[i] * stride[i]\<close>. Both are stated for any commutative semiring, to be read
  in \<^verbatim>\<open>Size\<close> arithmetic and in the natural numbers.\<close>

function stride_spec :: "('a::comm_semiring_1) list \<Rightarrow> nat \<Rightarrow> 'a" where
  "stride_spec extents i =
     (if Suc i < length extents then stride_spec extents (Suc i) * extents ! Suc i else 1)"
  by pat_completeness auto
termination
  by (relation "measure (\<lambda>(extents, i). length extents - i)") auto

declare stride_spec.simps [simp del]

definition flat_index_spec :: "('a::comm_semiring_1) list \<Rightarrow> 'a list \<Rightarrow> 'a" where
  "flat_index_spec extents position =
     sum_list (map (\<lambda>i. position ! i * stride_spec extents i) [0..<length extents])"

text \<open>The invariant of the registry: the two tables are inverse to each other, and the
  assigned ids are the values that the counter has passed.\<close>

definition Legs_static_inv :: "Legs_static \<Rightarrow> bool" where
  "Legs_static_inv s \<longleftrightarrow>
     (\<forall>n i. name2id s n = Some i \<longleftrightarrow> id2name s i = Some n) \<and>
     dom (id2name s) = {0..<total_Legs s} \<and> 0 \<le> total_Legs s"

subsection \<open>Example values\<close>

text \<open>An allocator for \<^verbatim>\<open>int\<close> elements: \<^verbatim>\<open>max_size()\<close> is \<open>(2 ^ 63 - 1) div 4\<close>, and
  \<open>2 ^ 20\<close> elements are available.\<close>

definition allocator_int :: allocator where
  "allocator_int = \<lparr> max_size = 2305843009213693951, available = 1048576 \<rparr>"

text \<open>The tensors that the constructor returns for the extents \<open>[2,3,4]\<close> and \<open>[2,3]\<close>;
  two tensors with four elements each and different shapes, extents \<open>[2,2]\<close> and \<open>[4]\<close>;
  and the tensor that the constructor returns for the extents
  \<open>[3, 6148914691236517206]\<close>, whose product \<open>2 ^ 64 + 2\<close> wraps around to 2.\<close>

definition T234 :: "int Tensor" where
  "T234 = \<lparr> rank = 3, size_Tensor = 24, dims = [2, 3, 4],
            legs = [Legs 0, Legs 1, Legs 2], data = replicate 24 0 \<rparr>"

definition T23 :: "int Tensor" where
  "T23 = \<lparr> rank = 2, size_Tensor = 6, dims = [2, 3],
           legs = [Legs 3, Legs 4], data = replicate 6 0 \<rparr>"

definition T22 :: "int Tensor" where
  "T22 = \<lparr> rank = 2, size_Tensor = 4, dims = [2, 2],
           legs = [Legs 0, Legs 1], data = [1, 2, 3, 4] \<rparr>"

definition T4 :: "int Tensor" where
  "T4 = \<lparr> rank = 1, size_Tensor = 4, dims = [4],
          legs = [Legs 5], data = [10, 20, 30, 40] \<rparr>"

definition T_wrap :: "int Tensor" where
  "T_wrap = \<lparr> rank = 2, size_Tensor = 2, dims = [3, 6148914691236517206],
              legs = [Legs 0, Legs 1], data = replicate 2 0 \<rparr>"

section \<open>Index arithmetic\<close>

lemma stride_spec_prod_list: "stride_spec e i = prod_list (drop (Suc i) e)"
proof (induction e i rule: stride_spec.induct)
  case (1 e i)
  show ?case
  proof (cases "Suc i < length e")
    case True
    have "drop (Suc i) e = e ! Suc i # drop (Suc (Suc i)) e"
      using True by (simp add: Cons_nth_drop_Suc)
    with 1 True show ?thesis
      by (subst stride_spec.simps) (simp add: mult.commute)
  next
    case False
    then show ?thesis by (subst stride_spec.simps) simp
  qed
qed

text \<open>The loop from counter \<open>i\<close> and accumulator \<open>idx\<close>: what is accumulated so far is
  scaled by the remaining extents, and the remaining axes add their stride terms.\<close>

lemma get_index_loop_eq:
  assumes "rank t = length (dims t)" "length p = rank t"
  shows "i \<le> rank t \<Longrightarrow> get_index_loop t p i idx =
     Inr (idx * prod_list (drop i (dims t))
          + sum_list (map (\<lambda>k. p ! k * stride_spec (dims t) k) [i..<rank t]))"
proof (induction "rank t - i" arbitrary: i idx)
  case 0
  then have "i = rank t" by simp
  then show ?case using assms
    by (subst get_index_loop.simps) simp
next
  case (Suc n)
  then have lt: "i < rank t" by simp
  have d: "drop i (dims t) = dims t ! i # drop (Suc i) (dims t)"
    using lt assms by (simp add: Cons_nth_drop_Suc)
  have u: "[i..<rank t] = i # [Suc i..<rank t]"
    using lt by (simp add: upt_conv_Cons)
  have "get_index_loop t p i idx = get_index_loop t p (Suc i) (idx * dims t ! i + p ! i)"
    using lt assms by (subst get_index_loop.simps) simp
  also have "\<dots> = Inr ((idx * dims t ! i + p ! i) * prod_list (drop (Suc i) (dims t))
        + sum_list (map (\<lambda>k. p ! k * stride_spec (dims t) k) [Suc i..<rank t]))"
    using Suc lt by (intro Suc.hyps(1)) simp_all
  finally show ?case
    by (simp add: d u stride_spec_prod_list algebra_simps)
qed

lemma get_index_flat_index:
  assumes "rank t = length (dims t)" "length p = rank t"
  shows "get_index t p = Inr (flat_index_spec (dims t) p)"
  using get_index_loop_eq [OF assms, of 0 0] assms
  by (simp add: get_index_def flat_index_spec_def)

lemma flat_index_spec_Nil: "flat_index_spec [] p = 0"
  by (simp add: flat_index_spec_def)

lemma flat_index_spec_Cons:
  "flat_index_spec (e # es) (x # xs) = x * prod_list es + flat_index_spec es xs"
proof -
  have "[0..<Suc (length es)] = 0 # map Suc [0..<length es]"
    by (simp add: upt_conv_Cons map_Suc_upt del: upt_Suc)
  then show ?thesis
    by (simp add: flat_index_spec_def stride_spec_prod_list comp_def del: upt_Suc)
qed

text \<open>In the natural numbers a position inside the extents has a flat index below the
  number of elements.\<close>

lemma flat_index_spec_less:
  fixes e :: "nat list"
  shows "length p = length e \<Longrightarrow> \<forall>i<length e. p ! i < e ! i \<Longrightarrow>
         flat_index_spec e p < prod_list e"
proof (induction e arbitrary: p)
  case Nil
  then show ?case by (simp add: flat_index_spec_Nil)
next
  case (Cons a e)
  then obtain x xs where p: "p = x # xs" by (cases p) auto
  from Cons.prems p have lx: "x < a" by auto
  from Cons.prems p have "\<forall>i<length e. xs ! i < e ! i" by auto
  with Cons.IH [of xs] Cons.prems p have ih: "flat_index_spec e xs < prod_list e" by simp
  have "x * prod_list e + flat_index_spec e xs < x * prod_list e + prod_list e"
    using ih by simp
  also have "\<dots> = Suc x * prod_list e" by simp
  also have "\<dots> \<le> a * prod_list e"
    using lx by (intro mult_le_mono1) simp
  finally show ?case by (simp add: p flat_index_spec_Cons)
qed

lemma prod_list_of_nat:
  "prod_list (map of_nat e) = (of_nat (prod_list e) :: 'a::comm_semiring_1)"
  by (induction e) simp_all

lemma flat_index_spec_of_nat:
  "length p = length e \<Longrightarrow>
   flat_index_spec (map of_nat e) (map of_nat p) =
   (of_nat (flat_index_spec e p) :: 'a::comm_semiring_1)"
proof (induction e arbitrary: p)
  case Nil
  then show ?case by (simp add: flat_index_spec_Nil)
next
  case (Cons a e)
  then obtain x xs where p: "p = x # xs" by (cases p) auto
  show ?case using Cons p by (simp add: flat_index_spec_Cons prod_list_of_nat)
qed

lemma unat_flat_index_spec:
  fixes e p :: "Size list"
  assumes "length p = length e" "\<forall>i<length e. p ! i < e ! i"
    and "prod_list (map unat e) < 2 ^ 64"
  shows "unat (flat_index_spec e p) = flat_index_spec (map unat e) (map unat p)"
    and "flat_index_spec (map unat e) (map unat p) < prod_list (map unat e)"
proof -
  have v: "\<forall>i<length (map unat e). map unat p ! i < map unat e ! i"
    using assms by (simp add: word_less_nat_alt)
  show b: "flat_index_spec (map unat e) (map unat p) < prod_list (map unat e)"
    using flat_index_spec_less [of "map unat p" "map unat e"] v assms by simp
  have "flat_index_spec e p =
        flat_index_spec (map of_nat (map unat e)) (map of_nat (map unat p))"
    by (simp add: comp_def)
  also have "\<dots> = of_nat (flat_index_spec (map unat e) (map unat p))"
    using assms by (intro flat_index_spec_of_nat) simp
  finally have "unat (flat_index_spec e p) =
        unat (of_nat (flat_index_spec (map unat e) (map unat p)) :: Size)"
    by simp
  also have "\<dots> = flat_index_spec (map unat e) (map unat p)"
    using b assms(3) by (simp add: unat_of_nat)
  finally show "unat (flat_index_spec e p) = flat_index_spec (map unat e) (map unat p)" .
qed

lemma unat_flat_index_spec_mod:
  fixes e p :: "Size list"
  assumes "length p = length e"
  shows "unat (flat_index_spec e p) = flat_index_spec (map unat e) (map unat p) mod 2 ^ 64"
proof -
  have "flat_index_spec e p =
        flat_index_spec (map of_nat (map unat e)) (map of_nat (map unat p))"
    by (simp add: comp_def)
  also have "\<dots> = of_nat (flat_index_spec (map unat e) (map unat p))"
    using assms by (intro flat_index_spec_of_nat) simp
  finally show ?thesis by (simp add: unat_of_nat)
qed

text \<open>
  C1 (as amended). For a tensor with one extent per axis and a position vector with one
  entry per axis, the Horner loop of \<open>get_index\<close> returns the row-major stride sum
  \<open>\<Sum>i. position[i] * stride[i]\<close> of the specification as \<^verbatim>\<open>Size\<close> arithmetic computes
  it: the stride sum over the natural numbers, reduced modulo \<open>2 ^ 64\<close>. When every entry
  is below its extent and the product of the extents is below \<open>2 ^ 64\<close>, nothing wraps
  around: the returned index is the stride sum over the natural numbers, and it is below
  the number of elements.
\<close>

theorem get_index_row_major:
  assumes "rank t = length (dims t)" and "length position = rank t"
  shows "get_index t position = Inr (flat_index_spec (dims t) position) \<and>
     unat (flat_index_spec (dims t) position) =
       flat_index_spec (map unat (dims t)) (map unat position) mod 2 ^ 64 \<and>
     ((\<forall>i<rank t. position ! i < dims t ! i) \<and> prod_list (map unat (dims t)) < 2 ^ 64 \<longrightarrow>
        unat (flat_index_spec (dims t) position) =
          flat_index_spec (map unat (dims t)) (map unat position) \<and>
        flat_index_spec (map unat (dims t)) (map unat position) <
          prod_list (map unat (dims t)))"
proof -
  have l: "length position = length (dims t)"
    using assms by simp
  have c1: "get_index t position = Inr (flat_index_spec (dims t) position)"
    using assms by (rule get_index_flat_index)
  have c2: "unat (flat_index_spec (dims t) position) =
       flat_index_spec (map unat (dims t)) (map unat position) mod 2 ^ 64"
    using l by (rule unat_flat_index_spec_mod)
  have c3: "(\<forall>i<rank t. position ! i < dims t ! i) \<and> prod_list (map unat (dims t)) < 2 ^ 64 \<longrightarrow>
        unat (flat_index_spec (dims t) position) =
          flat_index_spec (map unat (dims t)) (map unat position) \<and>
        flat_index_spec (map unat (dims t)) (map unat position) <
          prod_list (map unat (dims t))"
    using unat_flat_index_spec [of position "dims t"] l assms(1) by simp
  show ?thesis
    by (intro conjI c1 c2 c3)
qed

text \<open>Extents \<open>[2,3,4]\<close>: the position \<open>[1,2,3]\<close> has flat index \<open>1*3*4 + 2*4 + 3 = 23\<close>.\<close>

theorem get_index_row_major_witness:
  "get_index T234 [1, 2, 3] = Inr 23 \<and>
   unat (23 :: Size) = flat_index_spec [2, 3, 4] [1, 2, 3] \<and>
   flat_index_spec [2, 3, 4] [1, 2, 3] < (24 :: nat)"
proof -
  have r: "rank T234 = length (dims T234)" and l: "length [1, 2, 3 :: Size] = rank T234"
    by (simp_all add: T234_def)
  have v: "\<forall>i<rank T234. [1, 2, 3 :: Size] ! i < dims T234 ! i"
    by (simp add: T234_def numeral_3_eq_3 less_Suc_eq)
  have n: "prod_list (map unat (dims T234)) < 2 ^ 64"
    by (simp add: T234_def)
  have f: "flat_index_spec [2, 3, 4 :: Size] [1, 2, 3] = 23"
    by (simp add: flat_index_spec_Cons flat_index_spec_Nil)
  have d: "dims T234 = [2, 3, 4]"
    by (simp add: T234_def)
  from get_index_row_major [OF r l] v n show ?thesis
    by (simp add: d f)
qed

text \<open>C1 as stated fails where the product of the extents wraps around. The constructor
  returns a tensor with two elements for the extents \<open>[3, 6148914691236517206]\<close>; the
  position \<open>[2, 6148914691236517205]\<close> is inside the extents; \<open>get_index\<close> returns 1,
  and the stride sum is \<open>2 * 6148914691236517206 + 6148914691236517205 = 2 ^ 64 + 1\<close>.\<close>

theorem get_index_row_major_counterexample:
  "Tensor allocator_int [3, 6148914691236517206] [Legs 0, Legs 1] = Inr T_wrap \<and>
   (2 :: Size) < 3 \<and> (6148914691236517205 :: Size) < 6148914691236517206 \<and>
   get_index T_wrap [2, 6148914691236517205] = Inr 1 \<and>
   flat_index_spec [3, 6148914691236517206] [2, 6148914691236517205] =
     (18446744073709551617 :: nat)"
proof -
  have "Tensor allocator_int [3, 6148914691236517206] [Legs 0, Legs 1] = Inr T_wrap"
    by (simp add: Tensor_def vector_n_def accumulate_multiplies_def allocator_int_def
        T_wrap_def)
  moreover have "get_index T_wrap [2, 6148914691236517205] = Inr 1"
    by (simp add: get_index_def get_index_loop.simps T_wrap_def)
  moreover have "flat_index_spec [3, 6148914691236517206] [2, 6148914691236517205] =
     (18446744073709551617 :: nat)"
    by (simp add: flat_index_spec_Cons flat_index_spec_Nil)
  ultimately show ?thesis by simp
qed

text \<open>The loop looks at the first \<open>rank\<close> entries of the position vector only.\<close>

lemma get_index_loop_take:
  assumes "rank t \<le> length p"
  shows "get_index_loop t p i idx = get_index_loop t (take (rank t) p) i idx"
proof (induction "rank t - i" arbitrary: i idx)
  case 0
  then show ?case
    by (subst get_index_loop.simps, subst (2) get_index_loop.simps) simp
next
  case (Suc n)
  then have lt: "i < rank t" by simp
  have ih: "get_index_loop t p (Suc i) (idx * dims t ! i + p ! i) =
            get_index_loop t (take (rank t) p) (Suc i) (idx * dims t ! i + p ! i)"
    using Suc by (intro Suc.hyps(1)) simp
  show ?case
    using lt assms ih
    by (subst get_index_loop.simps, subst (2) get_index_loop.simps) simp
qed

text \<open>
  C10. For a tensor of rank \<open>r\<close> and a position vector with at least \<open>r\<close> entries,
  \<open>get_index\<close> returns what it returns for the first \<open>r\<close> entries: further entries are
  never read, and they are not rejected.
\<close>

theorem get_index_prefix:
  assumes "rank t \<le> length position"
  shows "get_index t position = get_index t (take (rank t) position)"
  using get_index_loop_take [OF assms] by (simp add: get_index_def)

theorem get_index_prefix_witness:
  "get_index T234 [1, 2, 3, 99, 7] = get_index T234 [1, 2, 3] \<and>
   get_index T234 [1, 2, 3] = Inr 23"
proof -
  have r: "rank T234 \<le> length [1, 2, 3, 99, 7 :: Size]"
    by (simp add: T234_def)
  have k: "take (rank T234) [1, 2, 3, 99, 7 :: Size] = [1, 2, 3]"
    by (simp add: T234_def)
  have v: "get_index T234 [1, 2, 3] = Inr 23"
    by (simp add: get_index_def T234_def get_index_loop.simps)
  from get_index_prefix [OF r] show ?thesis
    by (simp add: k v)
qed

section \<open>Construction\<close>

lemma foldl_mult_prod_list:
  "foldl (\<lambda>acc x. acc * x) acc a = acc * prod_list (a :: ('a::comm_monoid_mult) list)"
  by (induction a arbitrary: acc) (simp_all add: mult.assoc)

lemma accumulate_multiplies_prod_list: "accumulate_multiplies a = prod_list a"
  by (simp add: accumulate_multiplies_def foldl_mult_prod_list)

lemma unat_accumulate_multiplies:
  "unat (accumulate_multiplies a) = prod_list (map unat a) mod 2 ^ 64"
proof -
  have "accumulate_multiplies a = prod_list (map of_nat (map unat a))"
    by (simp add: accumulate_multiplies_prod_list comp_def)
  also have "\<dots> = of_nat (prod_list (map unat a))"
    by (rule prod_list_of_nat)
  finally show ?thesis by (simp add: unat_of_nat)
qed

text \<open>What the constructor returns, and when it returns.\<close>

lemma Tensor_Inr:
  "Tensor m a b = Inr t \<Longrightarrow>
   t = \<lparr> rank = length a mod 2 ^ 32, size_Tensor = accumulate_multiplies a, dims = a,
         legs = b, data = replicate (unat (accumulate_multiplies a)) 0 \<rparr>"
  by (auto simp: Tensor_def vector_n_def split: if_splits)

lemma Tensor_returns:
  "unat (accumulate_multiplies a) \<le> max_size m \<Longrightarrow>
   unat (accumulate_multiplies a) \<le> available m \<Longrightarrow>
   Tensor m a b =
     Inr \<lparr> rank = length a mod 2 ^ 32, size_Tensor = accumulate_multiplies a, dims = a,
           legs = b, data = replicate (unat (accumulate_multiplies a)) 0 \<rparr>"
  by (simp add: Tensor_def vector_n_def)

lemma Tensor_length_error:
  "max_size m < unat (accumulate_multiplies a) \<Longrightarrow> Tensor m a b = Inl length_error"
  by (simp add: Tensor_def vector_n_def)

lemma Tensor_bad_alloc:
  "unat (accumulate_multiplies a) \<le> max_size m \<Longrightarrow>
   available m < unat (accumulate_multiplies a) \<Longrightarrow> Tensor m a b = Inl bad_alloc"
  by (simp add: Tensor_def vector_n_def)

lemma tensor_inv_Tensor:
  "Tensor m a b = Inr t \<Longrightarrow> length a = length b \<Longrightarrow> length a < 2 ^ 32 \<Longrightarrow> tensor_inv t"
  by (drule Tensor_Inr) (simp add: tensor_inv_def)

text \<open>The example tensors are what the constructor returns.\<close>

lemma Tensor_examples:
  "Tensor allocator_int [2, 3, 4] [Legs 0, Legs 1, Legs 2] = Inr T234"
  "Tensor allocator_int [2, 3] [Legs 3, Legs 4] = Inr T23"
  "Tensor allocator_int [3, 6148914691236517206] [Legs 0, Legs 1] = Inr T_wrap"
  by (simp_all add: Tensor_def vector_n_def accumulate_multiplies_def allocator_int_def
      T234_def T23_def T_wrap_def)

lemma tensor_inv_examples: "tensor_inv T234" "tensor_inv T23" "tensor_inv T22" "tensor_inv T4"
  by (simp_all add: tensor_inv_def accumulate_multiplies_def T234_def T23_def T22_def T4_def)

text \<open>
  C6 (as amended). Constructing a tensor from an extents list and a legs list either throws
  from the allocation of the buffer (\<^verbatim>\<open>std::length_error\<close> when the size is above
  \<^verbatim>\<open>max_size()\<close>, \<^verbatim>\<open>std::bad_alloc\<close> when the allocator cannot supply it) or returns a
  tensor with the two lists as extents and legs, a rank equal to the length of the extents
  list reduced modulo \<open>2 ^ 32\<close> (the length itself below \<open>2 ^ 32\<close>), and a buffer of zeros
  whose length is the product of the extents reduced modulo \<open>2 ^ 64\<close>, the product as
  \<^verbatim>\<open>Size\<close> arithmetic computes it: it is the product of the extents whenever that is
  below \<open>2 ^ 64\<close>. The constructor returns exactly when a buffer of that length is within
  \<^verbatim>\<open>max_size()\<close> and available. The empty product is 1, so a rank-0 tensor has exactly
  one element. For lists of equal length below \<open>2 ^ 32\<close> the result satisfies the tensor
  invariant.
\<close>

theorem Tensor_construct:
  "(\<forall>t :: ('a::zero) Tensor. Tensor m a b = Inr t \<longrightarrow>
      rank t = length a mod 2 ^ 32 \<and> dims t = a \<and> legs t = b \<and>
      data t = replicate (prod_list (map unat a) mod 2 ^ 64) 0 \<and>
      (length a < 2 ^ 32 \<longrightarrow> rank t = length a) \<and>
      (prod_list (map unat a) < 2 ^ 64 \<longrightarrow> data t = replicate (prod_list (map unat a)) 0) \<and>
      (length a = length b \<and> length a < 2 ^ 32 \<longrightarrow> tensor_inv t)) \<and>
   ((\<exists>t :: 'a Tensor. Tensor m a b = Inr t) \<longleftrightarrow>
      prod_list (map unat a) mod 2 ^ 64 \<le> max_size m \<and>
      prod_list (map unat a) mod 2 ^ 64 \<le> available m) \<and>
   (max_size m < prod_list (map unat a) mod 2 ^ 64 \<longrightarrow>
      (Tensor m a b :: error + 'a Tensor) = Inl length_error) \<and>
   (prod_list (map unat a) mod 2 ^ 64 \<le> max_size m \<and>
    available m < prod_list (map unat a) mod 2 ^ 64 \<longrightarrow>
      (Tensor m a b :: error + 'a Tensor) = Inl bad_alloc) \<and>
   (\<forall>t :: 'a Tensor. Tensor m [] [] = Inr t \<longrightarrow> rank t = 0 \<and> data t = [0])"
proof -
  let ?n = "prod_list (map unat a) mod 2 ^ 64"
  have u: "unat (accumulate_multiplies a) = ?n"
    by (rule unat_accumulate_multiplies)
  have c1: "\<forall>t :: 'a Tensor. Tensor m a b = Inr t \<longrightarrow>
      rank t = length a mod 2 ^ 32 \<and> dims t = a \<and> legs t = b \<and>
      data t = replicate ?n 0 \<and>
      (length a < 2 ^ 32 \<longrightarrow> rank t = length a) \<and>
      (prod_list (map unat a) < 2 ^ 64 \<longrightarrow> data t = replicate (prod_list (map unat a)) 0) \<and>
      (length a = length b \<and> length a < 2 ^ 32 \<longrightarrow> tensor_inv t)"
  proof (intro allI impI)
    fix t :: "'a Tensor" assume r: "Tensor m a b = Inr t"
    note t = Tensor_Inr [OF r]
    have "rank t = length a mod 2 ^ 32" "dims t = a" "legs t = b" "data t = replicate ?n 0"
      by (simp_all add: t u)
    moreover have "length a = length b \<and> length a < 2 ^ 32 \<longrightarrow> tensor_inv t"
      using r by (simp add: tensor_inv_Tensor)
    ultimately show "rank t = length a mod 2 ^ 32 \<and> dims t = a \<and> legs t = b \<and>
      data t = replicate ?n 0 \<and>
      (length a < 2 ^ 32 \<longrightarrow> rank t = length a) \<and>
      (prod_list (map unat a) < 2 ^ 64 \<longrightarrow> data t = replicate (prod_list (map unat a)) 0) \<and>
      (length a = length b \<and> length a < 2 ^ 32 \<longrightarrow> tensor_inv t)"
      by simp
  qed
  have c2: "(\<exists>t :: 'a Tensor. Tensor m a b = Inr t) \<longleftrightarrow> ?n \<le> max_size m \<and> ?n \<le> available m"
    by (auto simp: Tensor_def vector_n_def u split: if_splits)
  have c3: "max_size m < ?n \<longrightarrow> (Tensor m a b :: error + 'a Tensor) = Inl length_error"
    by (simp add: Tensor_length_error u)
  have c4: "?n \<le> max_size m \<and> available m < ?n \<longrightarrow> (Tensor m a b :: error + 'a Tensor) = Inl bad_alloc"
    by (simp add: Tensor_bad_alloc u)
  have c5: "\<forall>t :: 'a Tensor. Tensor m [] [] = Inr t \<longrightarrow> rank t = 0 \<and> data t = [0]"
    by (auto dest!: Tensor_Inr simp: accumulate_multiplies_def)
  show ?thesis
    by (intro conjI c1 c2 c3 c4 c5)
qed

text \<open>Extents \<open>[2,3,4]\<close>: the constructor returns a tensor of rank 3 with 24 zeros.\<close>

theorem Tensor_construct_witness:
  "Tensor allocator_int [2, 3, 4] [Legs 0, Legs 1, Legs 2] = Inr T234 \<and>
   rank T234 = 3 \<and> data T234 = replicate 24 0 \<and> tensor_inv T234"
proof -
  have e: "Tensor allocator_int [2, 3, 4] [Legs 0, Legs 1, Legs 2] = Inr T234"
    by (rule Tensor_examples)
  have p: "prod_list (map unat [2, 3, 4 :: Size]) = 24" by simp
  have l: "length [2, 3, 4 :: Size] = length [Legs 0, Legs 1, Legs 2] \<and>
      length [2, 3, 4 :: Size] < 2 ^ 32" by simp
  note c = Tensor_construct [of allocator_int "[2, 3, 4]" "[Legs 0, Legs 1, Legs 2]",
      where 'a = int]
  from c e have r: "rank T234 = length [2, 3, 4 :: Size] mod 2 ^ 32" by blast
  from c e have d: "prod_list (map unat [2, 3, 4 :: Size]) < 2 ^ 64 \<longrightarrow>
      data T234 = replicate (prod_list (map unat [2, 3, 4 :: Size])) 0" by blast
  from r have "rank T234 = 3" by simp
  moreover from d have "data T234 = replicate 24 0" by (simp only: p) simp
  moreover from c e l have "tensor_inv T234" by blast
  ultimately show ?thesis using e by blast
qed

text \<open>C6 as stated fails where the product of the extents wraps around: two extents of
  \<open>2 ^ 32\<close> have the product \<open>2 ^ 64\<close>, and the constructed buffer is empty. It also
  fails where the buffer cannot be allocated: for the extent \<open>2 ^ 63\<close> the constructor
  throws.\<close>

theorem Tensor_size_counterexample:
  "Tensor allocator_int [4294967296, 4294967296] [Legs 0, Legs 1] =
     Inr \<lparr> rank = 2, size_Tensor = 0, dims = [4294967296, 4294967296],
           legs = [Legs 0, Legs 1], data = [] :: int list \<rparr> \<and>
   prod_list (map unat [4294967296, 4294967296 :: Size]) = 18446744073709551616 \<and>
   (Tensor allocator_int [9223372036854775808] [Legs 0] :: error + int Tensor) =
     Inl length_error"
  by (simp add: Tensor_def vector_n_def accumulate_multiplies_def allocator_int_def)

section \<open>Element access by position and by leg\<close>

text \<open>Two keys of a \<^verbatim>\<open>std::map<Legs, Size>\<close> are equivalent when neither is less than the
  other: exactly when they are the same leg.\<close>

lemma Legs_key_equiv:
  "(\<not> Legs_less a b \<and> \<not> Legs_less b a) = (a = b)" "Legs_eq a b = (a = b)"
  "Legs_neq a b = (a \<noteq> b)"
  by (cases a; cases b; auto simp: Legs_less_def Legs_eq_def Legs_neq_def)+

lemma get_position_loop_Some:
  "\<forall>l\<in>set ls. dict l \<noteq> None \<Longrightarrow>
   get_position_loop dict ls res = Inr (res @ map (\<lambda>l. the (dict l)) ls)"
  by (induction ls arbitrary: res) auto

lemma get_position_loop_None:
  "l \<in> set ls \<Longrightarrow> dict l = None \<Longrightarrow> get_position_loop dict ls res = Inl out_of_range"
  by (induction ls arbitrary: res) (auto split: option.splits)

lemma get_position_agree:
  assumes "length position = length (legs t)"
    and "\<forall>i<length (legs t). dict (legs t ! i) = Some (position ! i)"
  shows "get_position t dict = Inr position"
proof -
  have "\<forall>l\<in>set (legs t). dict l \<noteq> None"
    using assms(2) by (auto simp: in_set_conv_nth)
  then have "get_position t dict = Inr (map (\<lambda>l. the (dict l)) (legs t))"
    by (simp add: get_position_def get_position_loop_Some)
  moreover have "map (\<lambda>l. the (dict l)) (legs t) = position"
    using assms by (auto simp: list_eq_iff_nth_eq)
  ultimately show ?thesis by simp
qed

lemma get_position_map_le:
  assumes "distinct (legs t)" "length position = length (legs t)"
    and "map_of (zip (legs t) position) \<subseteq>\<^sub>m dict"
  shows "get_position t dict = Inr position"
proof (rule get_position_agree [OF assms(2)], intro allI impI)
  fix i assume i: "i < length (legs t)"
  have "map_of (zip (legs t) position) (legs t ! i) = Some (position ! i)"
    using assms i by (simp add: map_of_zip_nth)
  with assms(3) show "dict (legs t ! i) = Some (position ! i)"
    by (auto simp: map_le_def dom_def)
qed

lemma get_index_cong:
  "rank t' = rank t \<Longrightarrow> dims t' = dims t \<Longrightarrow> get_index t' p = get_index t p"
  for t :: "'a Tensor" and t' :: "'b Tensor"
proof -
  assume a: "rank t' = rank t" "dims t' = dims t"
  have "get_index_loop t' p i idx = get_index_loop t p i idx" for i idx
  proof (induction "rank t - i" arbitrary: i idx)
    case 0
    then show ?case using a
      by (subst get_index_loop.simps, subst (2) get_index_loop.simps) simp
  next
    case (Suc n)
    have "get_index_loop t' p (Suc i) (idx * dims t ! i + p ! i) =
          get_index_loop t p (Suc i) (idx * dims t ! i + p ! i)"
      using Suc by (intro Suc.hyps(1)) simp
    then show ?case using a
      by (subst get_index_loop.simps, subst (2) get_index_loop.simps) simp
  qed
  then show ?thesis by (simp add: get_index_def)
qed

lemma at_position_assign_position:
  assumes "assign_position t position v = Inr t'"
  shows "at_position t' position = Inr v \<and> legs t' = legs t \<and> dims t' = dims t \<and>
         rank t' = rank t \<and> length (data t') = length (data t)"
proof -
  from assms obtain i where i: "get_index t position = Inr i" "unat i < length (data t)"
    and t': "t' = t\<lparr>data := (data t)[unat i := v]\<rparr>"
    by (auto simp: assign_position_def split: sum.splits if_splits)
  have "get_index t' position = get_index t position"
    by (rule get_index_cong) (simp_all add: t')
  with i show ?thesis by (simp add: at_position_def t')
qed

lemma length_data_inv:
  "tensor_inv t \<Longrightarrow> prod_list (map unat (dims t)) < 2 ^ 64 \<Longrightarrow>
   length (data t) = prod_list (map unat (dims t))"
  by (simp add: tensor_inv_def unat_accumulate_multiplies)

lemma get_index_in_range:
  assumes "tensor_inv t" "length position = rank t"
    and "\<forall>i<rank t. position ! i < dims t ! i"
    and "prod_list (map unat (dims t)) < 2 ^ 64"
  shows "get_index t position = Inr (flat_index_spec (dims t) position)"
    and "unat (flat_index_spec (dims t) position) < length (data t)"
proof -
  have r: "rank t = length (dims t)" using assms(1) by (simp add: tensor_inv_def)
  show "get_index t position = Inr (flat_index_spec (dims t) position)"
    using r assms(2) by (rule get_index_flat_index)
  show "unat (flat_index_spec (dims t) position) < length (data t)"
    using unat_flat_index_spec [of position "dims t"] assms r
    by (simp add: length_data_inv)
qed

lemma dict_access_eq_position_access:
  assumes "distinct (legs t)" "length position = length (legs t)"
    and "map_of (zip (legs t) position) \<subseteq>\<^sub>m dict"
  shows "get_position t dict = Inr position"
    and "at_dict t dict = at_position t position"
    and "assign_dict t dict v = assign_position t position v"
    and "assign_position t position v = Inr t' \<Longrightarrow> at_dict t' dict = Inr v"
proof -
  show g: "get_position t dict = Inr position"
    using assms by (rule get_position_map_le)
  then show "at_dict t dict = at_position t position"
    and "assign_dict t dict v = assign_position t position v"
    by (simp_all add: at_dict_def assign_dict_def)
  assume w: "assign_position t position v = Inr t'"
  note a = at_position_assign_position [OF w]
  have "get_position t' dict = Inr position"
    using assms a by (intro get_position_map_le) simp_all
  with a show "at_dict t' dict = Inr v" by (simp add: at_dict_def)
qed

lemma assign_position_succeeds:
  assumes "tensor_inv t" "length position = rank t"
    and "\<forall>i<rank t. position ! i < dims t ! i"
    and "prod_list (map unat (dims t)) < 2 ^ 64"
  shows "\<exists>t'. assign_position t position v = Inr t'"
  using get_index_in_range [OF assms] by (simp add: assign_position_def)

text \<open>
  C2. For a tensor with pairwise distinct legs, a position vector with one entry per axis
  and a dictionary that maps each leg to the entry of its axis (it may hold further keys):
  \<open>get_position\<close> returns the position vector, so that reading and writing by dictionary
  are reading and writing by position; a value written by position is read back by
  dictionary; and for a tensor that satisfies the invariant, with a product of extents
  below \<open>2 ^ 64\<close> and every entry below its extent, the write and the read succeed.
\<close>

theorem dict_access_is_position_access:
  assumes "distinct (legs t)" and "length position = length (legs t)"
    and "map_of (zip (legs t) position) \<subseteq>\<^sub>m dict"
  shows "get_position t dict = Inr position \<and>
     at_dict t dict = at_position t position \<and>
     assign_dict t dict v = assign_position t position v \<and>
     (\<forall>t'. assign_position t position v = Inr t' \<longrightarrow> at_dict t' dict = Inr v) \<and>
     (tensor_inv t \<and> (\<forall>i<rank t. position ! i < dims t ! i) \<and>
      prod_list (map unat (dims t)) < 2 ^ 64 \<longrightarrow>
        (\<exists>t'. assign_position t position v = Inr t' \<and> at_dict t' dict = Inr v))"
proof -
  note d = dict_access_eq_position_access [OF assms]
  have "\<exists>t'. assign_position t position v = Inr t' \<and> at_dict t' dict = Inr v"
    if "tensor_inv t" "\<forall>i<rank t. position ! i < dims t ! i"
      "prod_list (map unat (dims t)) < 2 ^ 64"
  proof -
    have "length position = rank t"
      using that(1) assms(2) by (simp add: tensor_inv_def)
    with that obtain t' where "assign_position t position v = Inr t'"
      using assign_position_succeeds [of t position v] by blast
    with d(4) show ?thesis by blast
  qed
  with d show ?thesis by blast
qed

text \<open>Extents \<open>[2,3,4]\<close>, legs with the ids 0, 1 and 2: writing 7 at position \<open>[1,2,3]\<close>
  stores it at flat index 23, and reading by dictionary returns the 7 (and the initial 0
  before the write).\<close>

theorem dict_access_is_position_access_witness:
  "assign_position T234 [1, 2, 3] 7 = Inr (T234\<lparr>data := (replicate 24 0)[23 := 7]\<rparr>) \<and>
   at_dict (T234\<lparr>data := (replicate 24 0)[23 := 7]\<rparr>)
     [Legs 0 \<mapsto> 1, Legs 1 \<mapsto> 2, Legs 2 \<mapsto> 3] = Inr 7 \<and>
   at_dict T234 [Legs 0 \<mapsto> 1, Legs 1 \<mapsto> 2, Legs 2 \<mapsto> 3] = Inr 0"
proof -
  let ?d = "[Legs 0 \<mapsto> 1, Legs 1 \<mapsto> 2, Legs 2 \<mapsto> 3 :: Size]"
  have f: "legs T234 = [Legs 0, Legs 1, Legs 2]"
    by (simp add: T234_def)
  have h1: "distinct (legs T234)" and h2: "length [1, 2, 3 :: Size] = length (legs T234)"
    by (simp_all add: f)
  have h3: "map_of (zip (legs T234) [1, 2, 3]) \<subseteq>\<^sub>m ?d"
    by (auto simp: f map_le_def)
  have w: "assign_position T234 [1, 2, 3] 7 = Inr (T234\<lparr>data := (replicate 24 0)[23 := 7]\<rparr>)"
    by (simp add: assign_position_def get_index_def get_index_loop.simps T234_def)
  have r: "at_position T234 [1, 2, 3] = Inr 0"
    by (simp add: at_position_def get_index_def get_index_loop.simps T234_def)
  note c = dict_access_is_position_access [OF h1 h2 h3, of 7]
  from c w have "at_dict (T234\<lparr>data := (replicate 24 0)[23 := 7]\<rparr>) ?d = Inr 7" by blast
  moreover from c r have "at_dict T234 ?d = Inr 0" by simp
  ultimately show ?thesis using w by blast
qed

text \<open>The scenario of the specification: extents \<open>[2,3,4]\<close> and three distinct legs; for
  every valid \<open>i\<close>, \<open>j\<close>, \<open>k\<close> the write at \<open>[i,j,k]\<close> into the constructed tensor
  succeeds and the read by \<open>{A:i, B:j, C:k}\<close> returns the written value.\<close>

lemma scenario_2_3_4:
  fixes A B C :: Legs and v :: "'a::zero"
  assumes "Tensor m [2, 3, 4] [A, B, C] = Inr t"
    and "distinct [A, B, C]" "i < 2" "j < 3" "k < 4"
  shows "\<exists>t'. assign_position t [i, j, k] v = Inr t' \<and>
              at_dict t' [A \<mapsto> i, B \<mapsto> j, C \<mapsto> k] = Inr v"
proof -
  have inv: "tensor_inv t"
    using assms(1) by (rule tensor_inv_Tensor) simp_all
  have f: "rank t = 3" "dims t = [2, 3, 4]" "legs t = [A, B, C]"
    using Tensor_Inr [OF assms(1)] by simp_all
  have v: "\<forall>n<rank t. [i, j, k] ! n < dims t ! n"
    using assms by (simp add: f numeral_3_eq_3 less_Suc_eq)
  have "\<exists>t'. assign_position t [i, j, k] v = Inr t'"
    using inv _ v by (rule assign_position_succeeds) (simp_all add: f)
  then obtain t' where w: "assign_position t [i, j, k] v = Inr t'" ..
  have m: "map_of (zip (legs t) [i, j, k]) \<subseteq>\<^sub>m [A \<mapsto> i, B \<mapsto> j, C \<mapsto> k]"
    using assms by (auto simp: f map_le_def)
  have "at_dict t' [A \<mapsto> i, B \<mapsto> j, C \<mapsto> k] = Inr v"
    using _ _ m w by (rule dict_access_eq_position_access(4)) (use assms in \<open>simp_all add: f\<close>)
  with w show ?thesis by blast
qed

text \<open>The calls with the state of \<^verbatim>\<open>*this\<close> agree with the accesses above: they return
  the same values, and they throw what \<open>get_position\<close> throws.\<close>

lemma dict_calls_agree:
  "get_position_call dict t =
     (case get_position t dict of Inl e \<Rightarrow> Throws e t | Inr p \<Rightarrow> Returns p t)"
  "at_dict_call dict t = Returns x s \<longleftrightarrow> s = t \<and> at_dict t dict = Inr x"
  "at_dict_call dict t = Throws e s \<longleftrightarrow> s = t \<and> get_position t dict = Inl e"
  "assign_dict_call dict v t = Returns u s \<longleftrightarrow> assign_dict t dict v = Inr s"
  "assign_dict_call dict v t = Throws e s \<longleftrightarrow> s = t \<and> get_position t dict = Inl e"
  by (auto simp: get_position_call_def at_dict_call_def assign_dict_call_def get_position_def
      at_dict_def assign_dict_def at_position_def assign_position_def
      split: sum.splits if_splits)

text \<open>
  C4. When the dictionary has no entry for one of the tensor's legs, \<open>get_position\<close> throws
  \<^verbatim>\<open>std::out_of_range\<close>, and so do both element accesses by dictionary: the failure is an
  exception of its own, no default value is returned, and the tensor after the failed call
  is the tensor before it.
\<close>

theorem missing_leg_out_of_range:
  assumes "l \<in> set (legs t)" and "dict l = None"
  shows "get_position t dict = Inl out_of_range \<and>
         at_dict t dict = Inl out_of_range \<and>
         assign_dict t dict v = Inl out_of_range \<and>
         get_position_call dict t = Throws out_of_range t \<and>
         at_dict_call dict t = Throws out_of_range t \<and>
         assign_dict_call dict v t = Throws out_of_range t"
  using get_position_loop_None [of l "legs t" dict "[]"] assms
  by (simp add: get_position_def at_dict_def assign_dict_def get_position_call_def
      at_dict_call_def assign_dict_call_def)

text \<open>Extents \<open>[2,3,4]\<close> with the legs 0, 1 and 2 and a dictionary without the leg 2.\<close>

theorem missing_leg_out_of_range_witness:
  "get_position T234 [Legs 0 \<mapsto> 0, Legs 1 \<mapsto> 0] = Inl out_of_range \<and>
   at_dict T234 [Legs 0 \<mapsto> 0, Legs 1 \<mapsto> 0] = Inl out_of_range \<and>
   assign_dict T234 [Legs 0 \<mapsto> 0, Legs 1 \<mapsto> 0] 7 = Inl out_of_range \<and>
   at_dict_call [Legs 0 \<mapsto> 0, Legs 1 \<mapsto> 0] T234 = Throws out_of_range T234 \<and>
   assign_dict_call [Legs 0 \<mapsto> 0, Legs 1 \<mapsto> 0] 7 T234 = Throws out_of_range T234"
proof -
  have h1: "Legs 2 \<in> set (legs T234)"
    by (simp add: T234_def)
  have h2: "[Legs 0 \<mapsto> 0, Legs 1 \<mapsto> 0 :: Size] (Legs 2) = None"
    by simp
  from missing_leg_out_of_range [of "Legs 2" T234 "[Legs 0 \<mapsto> 0, Legs 1 \<mapsto> 0]" 7] h1 h2
  show ?thesis by blast
qed

section \<open>Bulk operations\<close>

lemma generate_loop_eq:
  "generate_loop g s xs =
     (map (\<lambda>k. fst (g (((\<lambda>s. snd (g s)) ^^ k) s))) [0..<length xs],
      ((\<lambda>s. snd (g s)) ^^ length xs) s)"
proof (induction xs arbitrary: s)
  case Nil
  show ?case by simp
next
  case (Cons x xs)
  let ?step = "\<lambda>s. snd (g s)"
  have u: "[0..<Suc (length xs)] = 0 # map Suc [0..<length xs]"
    by (simp add: upt_conv_Cons map_Suc_upt del: upt_Suc)
  have sw: "(?step ^^ k) (snd (g s)) = snd (g ((?step ^^ k) s))" for k
    using funpow_swap1 [of ?step k s] by simp
  obtain v s' where g: "g s = (v, s')" by (cases "g s")
  then have s': "s' = snd (g s)" by simp
  show ?case
    by (simp add: Cons g u comp_def del: upt_Suc) (simp add: s' sw)
qed

lemma counter_funpow: "((\<lambda>s. s + 1) ^^ k) (i :: int) = i + int k"
  by (induction k) simp_all

lemma generate_eq:
  "generate g s t =
     (t\<lparr>data := map (\<lambda>k. fst (g (((\<lambda>s. snd (g s)) ^^ k) s))) [0..<length (data t)]\<rparr>,
      ((\<lambda>s. snd (g s)) ^^ length (data t)) s)"
  by (simp add: generate_def generate_loop_eq)

lemma generate_counter:
  "generate (\<lambda>i. (conv i, i + 1)) (0 :: int) t =
     (t\<lparr>data := map (\<lambda>k. conv (int k)) [0..<length (data t)]\<rparr>, int (length (data t)))"
  by (simp add: generate_eq counter_funpow)

text \<open>
  C5. \<open>generate\<close> overwrites every buffer element, from the first flat index to the last,
  with the successive results of the producer: element \<open>k\<close> is the result of the call made
  after \<open>k\<close> earlier calls, and extents and legs stay as they are. With the producer that
  counts up from 0 (the \<^verbatim>\<open>i++\<close> of \<^verbatim>\<open>main\<close>; \<open>conv\<close> converts the counter to the
  element type) the buffer holds \<open>0, 1, \<dots>, size - 1\<close> at ascending flat indices.
\<close>

theorem generate_storage_order:
  "generate g s t =
     (t\<lparr>data := map (\<lambda>k. fst (g (((\<lambda>s. snd (g s)) ^^ k) s))) [0..<length (data t)]\<rparr>,
      ((\<lambda>s. snd (g s)) ^^ length (data t)) s) \<and>
   generate (\<lambda>i. (conv i, i + 1)) (0 :: int) t =
     (t\<lparr>data := map (\<lambda>k. conv (int k)) [0..<length (data t)]\<rparr>, int (length (data t))) \<and>
   (tensor_inv t \<longrightarrow>
      data (fst (generate (\<lambda>i. (conv i, i + 1)) (0 :: int) t)) =
        map (\<lambda>k. conv (int k)) [0..<unat (size_Tensor t)])"
proof -
  have "tensor_inv t \<longrightarrow>
      data (fst (generate (\<lambda>i. (conv i, i + 1)) (0 :: int) t)) =
        map (\<lambda>k. conv (int k)) [0..<unat (size_Tensor t)]"
    by (simp add: generate_counter tensor_inv_def)
  with generate_eq [of g s t] generate_counter [of conv t] show ?thesis
    by blast
qed

text \<open>Extents \<open>[2,3]\<close>: the counting producer fills the six elements with 0 to 5.\<close>

theorem generate_storage_order_witness:
  "data (fst (generate (\<lambda>i. (i, i + 1)) (0 :: int) T23)) = [0, 1, 2, 3, 4, 5]"
proof -
  have i: "tensor_inv T23" by (rule tensor_inv_examples)
  have n: "unat (size_Tensor T23) = 6"
    by (simp add: T23_def)
  have u: "map int [0..<6] = [0, 1, 2, 3, 4, 5]"
    by (simp add: upt_rec)
  from generate_storage_order [of "\<lambda>i. (i, i + 1)" 0 T23 "\<lambda>i. i"] i
  have "data (fst (generate (\<lambda>i. (i, i + 1)) (0 :: int) T23)) =
        map (\<lambda>k. int k) [0..<unat (size_Tensor T23)]" by blast
  then show ?thesis by (simp only: n u)
qed

lemma transform_into_same_length:
  "length vs = length dst \<Longrightarrow> transform_into vs dst = Inr vs"
  by (simp add: transform_into_def)

text \<open>The tensor that \<open>outplace_op_unary\<close> constructs for its result has the extents and
  legs of the source and, for a source that satisfies the invariant, a buffer of the
  source's length.\<close>

lemma Tensor_of_inv:
  "tensor_inv t \<Longrightarrow> Tensor m (dims t) (legs t) = Inr res \<Longrightarrow>
   length (data res) = length (data t)"
  by (drule Tensor_Inr) (simp add: tensor_inv_def)

lemma outplace_op_unary_Returns:
  "outplace_op_unary m f t = Returns res t' \<Longrightarrow>
   t' = t \<and> dims res = dims t \<and> legs res = legs t"
  by (auto simp: outplace_op_unary_def split: sum.splits dest!: Tensor_Inr)

lemma outplace_op_unary_Throws:
  "outplace_op_unary m f t = Throws e t' \<Longrightarrow> t' = t"
  by (auto simp: outplace_op_unary_def split: sum.splits)

lemma outplace_op_unary_inv:
  fixes f :: "'a \<Rightarrow> 'b::zero"
  assumes "tensor_inv t" "length (data t) \<le> max_size m" "length (data t) \<le> available m"
  shows "outplace_op_unary m f t =
     Returns \<lparr> rank = length (dims t) mod 2 ^ 32, size_Tensor = size_Tensor t,
               dims = dims t, legs = legs t, data = map f (data t) \<rparr> t"
proof -
  have u: "unat (accumulate_multiplies (dims t)) = length (data t)"
    using assms(1) by (simp add: tensor_inv_def)
  have s: "accumulate_multiplies (dims t) = size_Tensor t"
    using assms(1) by (simp add: tensor_inv_def)
  have "(Tensor m (dims t) (legs t) :: error + 'b Tensor) =
     Inr \<lparr> rank = length (dims t) mod 2 ^ 32, size_Tensor = accumulate_multiplies (dims t),
           dims = dims t, legs = legs t,
           data = replicate (unat (accumulate_multiplies (dims t))) 0 \<rparr>"
    using assms(2,3) by (intro Tensor_returns) (simp_all add: u)
  moreover have "unat (size_Tensor t) = length (data t)"
    using assms(1) by (simp add: tensor_inv_def)
  ultimately show ?thesis
    by (simp add: outplace_op_unary_def transform_into_same_length s)
qed

lemma inplace_op_unary_frame:
  "dims (inplace_op_unary f t) = dims t \<and> legs (inplace_op_unary f t) = legs t \<and>
   length (data (inplace_op_unary f t)) = length (data t)"
  by (simp add: inplace_op_unary_def)

lemma inplace_op_binary_frame:
  "inplace_op_binary f t t2 = Inr t' \<Longrightarrow>
   dims t' = dims t \<and> legs t' = legs t \<and> length (data t') = length (data t)"
  by (auto simp: inplace_op_binary_def split: if_splits)

lemma inplace_op_binary_succeeds:
  "length (data t) \<le> length (data t2) \<Longrightarrow>
   inplace_op_binary f t t2 = Inr (t\<lparr>data := map2 f (data t) (data t2)\<rparr>)"
  by (simp add: inplace_op_binary_def)

text \<open>Every operation that returns keeps the tensor invariant, and the tensor returned by
  \<open>outplace_op_unary\<close> satisfies it (the rank of a tensor is below \<open>2 ^ 32\<close>).\<close>

lemma tensor_inv_preserved:
  fixes f :: "'a \<Rightarrow> 'b::zero"
  assumes "tensor_inv t"
  shows "tensor_inv (fst (generate g s t))"
    and "tensor_inv (inplace_op_unary f' t)"
    and "assign_position t position v = Inr t' \<Longrightarrow> tensor_inv t'"
    and "inplace_op_binary k t t2 = Inr t' \<Longrightarrow> tensor_inv t'"
    and "outplace_op_unary m f t = Returns res t'' \<Longrightarrow> rank t < 2 ^ 32 \<Longrightarrow> tensor_inv res"
proof -
  show "tensor_inv (fst (generate g s t))"
    using assms by (simp add: generate_eq tensor_inv_def)
  show "tensor_inv (inplace_op_unary f' t)"
    using assms by (simp add: inplace_op_unary_def tensor_inv_def)
  show "tensor_inv t'" if "assign_position t position v = Inr t'"
    using at_position_assign_position [OF that] that assms
    by (auto simp: assign_position_def tensor_inv_def split: sum.splits if_splits)
  show "tensor_inv t'" if "inplace_op_binary k t t2 = Inr t'"
    using that assms by (auto simp: inplace_op_binary_def tensor_inv_def split: if_splits)
  show "tensor_inv res" if "outplace_op_unary m f t = Returns res t''" "rank t < 2 ^ 32"
    using that assms
    by (auto simp: outplace_op_unary_def transform_into_def tensor_inv_def
        split: sum.splits if_splits dest!: Tensor_Inr)
qed

text \<open>
  C8, for the operations that the class defines: \<open>outplace_op_unary\<close> (\<open>map_to_new\<close>),
  \<open>inplace_op_unary\<close> (\<open>map_in_place\<close>) and \<open>inplace_op_binary\<close> (\<open>zip_in_place\<close>);
  \<open>outplace_op_binary\<close> (\<open>zip_to_new\<close>) is ill-formed in the source and has no
  embedding. What \<open>outplace_op_unary\<close> returns has the extents and legs of its source,
  and the source is as it was when the call returns and when it throws; the two in-place
  operations keep extents, legs and buffer length. The operations do return:
  \<open>outplace_op_unary\<close> on every tensor that satisfies the invariant when the result buffer
  can be allocated, \<open>inplace_op_binary\<close> when the second operand has at least as many
  elements as the first.
\<close>

theorem transforms_keep_shape:
  "(\<forall>res t'. outplace_op_unary m f t = Returns res t' \<longrightarrow>
      t' = t \<and> dims res = dims t \<and> legs res = legs t) \<and>
   (\<forall>e t'. outplace_op_unary m f t = Throws e t' \<longrightarrow> t' = t) \<and>
   (tensor_inv t \<and> length (data t) \<le> max_size m \<and> length (data t) \<le> available m \<longrightarrow>
      (\<exists>res. outplace_op_unary m f t = Returns res t)) \<and>
   dims (inplace_op_unary f' t) = dims t \<and> legs (inplace_op_unary f' t) = legs t \<and>
   length (data (inplace_op_unary f' t)) = length (data t) \<and>
   (\<forall>t'. inplace_op_binary k t t2 = Inr t' \<longrightarrow>
      dims t' = dims t \<and> legs t' = legs t \<and> length (data t') = length (data t)) \<and>
   (length (data t) \<le> length (data t2) \<longrightarrow> (\<exists>t'. inplace_op_binary k t t2 = Inr t'))"
proof -
  have c1: "\<forall>res t'. outplace_op_unary m f t = Returns res t' \<longrightarrow>
      t' = t \<and> dims res = dims t \<and> legs res = legs t"
    using outplace_op_unary_Returns [of m f t] by blast
  have c2: "\<forall>e t'. outplace_op_unary m f t = Throws e t' \<longrightarrow> t' = t"
    using outplace_op_unary_Throws [of m f t] by blast
  have c3: "tensor_inv t \<and> length (data t) \<le> max_size m \<and> length (data t) \<le> available m \<longrightarrow>
      (\<exists>res. outplace_op_unary m f t = Returns res t)"
    by (simp add: outplace_op_unary_inv)
  have c6: "\<forall>t'. inplace_op_binary k t t2 = Inr t' \<longrightarrow>
      dims t' = dims t \<and> legs t' = legs t \<and> length (data t') = length (data t)"
    using inplace_op_binary_frame [of k t t2] by blast
  have c7: "length (data t) \<le> length (data t2) \<longrightarrow> (\<exists>t'. inplace_op_binary k t t2 = Inr t')"
    by (simp add: inplace_op_binary_succeeds)
  show ?thesis
    by (intro conjI c1 c2 c3 c6 c7) (simp_all add: inplace_op_unary_def)
qed

text \<open>The tensor with extents \<open>[2,2]\<close> and elements 1 to 4: doubled into a new tensor,
  doubled in place, and added to in place.\<close>

theorem transforms_keep_shape_witness:
  "outplace_op_unary allocator_int (\<lambda>v. v * 2) T22 =
     Returns (T22\<lparr>data := [2, 4, 6, 8]\<rparr>) T22 \<and>
   dims (T22\<lparr>data := [2, 4, 6, 8]\<rparr>) = dims T22 \<and>
   legs (T22\<lparr>data := [2, 4, 6, 8]\<rparr>) = legs T22 \<and>
   inplace_op_binary (\<lambda>v w. v + w) T22 T4 = Inr (T22\<lparr>data := [11, 22, 33, 44]\<rparr>) \<and>
   length (data (T22\<lparr>data := [11, 22, 33, 44]\<rparr>)) = length (data T22) \<and>
   length (data (inplace_op_unary (\<lambda>v. v * 2) T22)) = length (data T22)"
proof -
  have i: "tensor_inv T22 \<and> length (data T22) \<le> max_size allocator_int \<and>
      length (data T22) \<le> available allocator_int"
    by (simp add: tensor_inv_examples) (simp add: T22_def allocator_int_def)
  have l: "length (data T22) \<le> length (data T4)"
    by (simp add: T22_def T4_def)
  have e3: "inplace_op_binary (\<lambda>v w. v + w) T22 T4 = Inr (T22\<lparr>data := [11, 22, 33, 44]\<rparr>)"
    by (simp add: inplace_op_binary_def T22_def T4_def)
  note c = transforms_keep_shape [of allocator_int "\<lambda>v. v * 2" T22 "\<lambda>v. v * 2"
      "\<lambda>v w. v + w" T4]
  from c i obtain res where
    r: "outplace_op_unary allocator_int (\<lambda>v. v * 2) T22 = Returns res T22" by blast
  have e1: "outplace_op_unary allocator_int (\<lambda>v. v * 2) T22 =
      Returns (T22\<lparr>data := [2, 4, 6, 8]\<rparr>) T22"
    by (simp add: outplace_op_unary_def transform_into_def T22_def Tensor_def vector_n_def
        accumulate_multiplies_def allocator_int_def)
  from c e1 have "dims (T22\<lparr>data := [2, 4, 6, 8]\<rparr>) = dims T22 \<and>
      legs (T22\<lparr>data := [2, 4, 6, 8]\<rparr>) = legs T22" by blast
  moreover from c e3 have "length (data (T22\<lparr>data := [11, 22, 33, 44]\<rparr>)) = length (data T22)"
    by blast
  moreover from c have "length (data (inplace_op_unary (\<lambda>v. v * 2) T22)) = length (data T22)"
    by blast
  ultimately show ?thesis using e1 e3 by blast
qed

text \<open>
  C9, for \<open>inplace_op_binary\<close> (\<open>zip_in_place\<close>); \<open>outplace_op_binary\<close> (\<open>zip_to_new\<close>)
  is ill-formed in the source and has no embedding. When both operands have the same
  number of elements, \<open>inplace_op_binary\<close> returns, and it replaces the element at every
  flat index \<open>i\<close> by \<open>g\<close> of it and the other operand's element at \<open>i\<close>, leaving extents and
  legs as they are. Nothing is assumed about the extents of the second operand: the shapes
  are not compared.
\<close>

theorem zip_flat_index_wise:
  assumes "length (data a) = length (data b)"
  shows "\<exists>t'. inplace_op_binary g a b = Inr t' \<and>
          dims t' = dims a \<and> legs t' = legs a \<and>
          length (data t') = length (data a) \<and>
          (\<forall>i<length (data a). data t' ! i = g (data a ! i) (data b ! i))"
proof -
  have "inplace_op_binary g a b = Inr (a\<lparr>data := map2 g (data a) (data b)\<rparr>)"
    using assms by (simp add: inplace_op_binary_succeeds)
  then show ?thesis
    using assms by simp
qed

text \<open>A tensor with extents \<open>[2,2]\<close> is zipped with a tensor with extents \<open>[4]\<close>.\<close>

theorem zip_flat_index_wise_witness:
  "inplace_op_binary (\<lambda>v w. v + w) T22 T4 = Inr (T22\<lparr>data := [11, 22, 33, 44]\<rparr>) \<and>
   data (T22\<lparr>data := [11, 22, 33, 44]\<rparr>) ! 2 = data T22 ! 2 + data T4 ! 2 \<and>
   dims T22 \<noteq> dims T4"
proof -
  have l: "length (data T22) = length (data T4)"
    by (simp add: T22_def T4_def)
  have n: "(2 :: nat) < length (data T22)"
    by (simp add: T22_def)
  have d: "dims T22 \<noteq> dims T4"
    by (simp add: T22_def T4_def)
  from zip_flat_index_wise [OF l, of "\<lambda>v w. v + w"]
  obtain t' where t': "inplace_op_binary (\<lambda>v w. v + w) T22 T4 = Inr t'"
    "\<forall>i<length (data T22). data t' ! i = data T22 ! i + data T4 ! i" by blast
  have e3: "inplace_op_binary (\<lambda>v w. v + w) T22 T4 = Inr (T22\<lparr>data := [11, 22, 33, 44]\<rparr>)"
    by (simp add: inplace_op_binary_def T22_def T4_def)
  from t' e3 have "t' = T22\<lparr>data := [11, 22, 33, 44]\<rparr>" by simp
  with t'(2) n have "data (T22\<lparr>data := [11, 22, 33, 44]\<rparr>) ! 2 = data T22 ! 2 + data T4 ! 2"
    by blast
  with e3 d show ?thesis by blast
qed

section \<open>Leg registry\<close>

lemma Legs_static_inv_init: "Legs_static_inv Legs_static_init"
  by (simp add: Legs_static_inv_def Legs_static_init_def)

lemma Legs_name_known:
  "name2id s n = Some i \<Longrightarrow> Legs_name n s = (Legs i, s)"
  by (simp add: Legs_name_def)

lemma Legs_name_fresh:
  "name2id s n = None \<Longrightarrow>
   Legs_name n s =
     (Legs (total_Legs s),
      s\<lparr> total_Legs := total_Legs s + 1,
         name2id := (name2id s)(n \<mapsto> total_Legs s),
         id2name := (id2name s)(total_Legs s \<mapsto> n) \<rparr>)"
  by (simp add: Legs_name_def Let_def)

lemma name2id_Legs_name:
  "name2id (snd (Legs_name n s)) n = Some (id_Legs (fst (Legs_name n s)))"
  by (cases "name2id s n") (simp_all add: Legs_name_def Let_def)

lemma name2id_Legs_name_mono:
  "name2id s m = Some i \<Longrightarrow> name2id (snd (Legs_name n s)) m = Some i"
  by (cases "name2id s n") (auto simp: Legs_name_def Let_def)

lemma Legs_static_inv_Legs_name:
  assumes "Legs_static_inv s"
  shows "Legs_static_inv (snd (Legs_name n s))"
proof (cases "name2id s n")
  case (Some i)
  with assms show ?thesis by (simp add: Legs_name_def)
next
  case None
  from assms have iff: "\<And>m i. name2id s m = Some i \<longleftrightarrow> id2name s i = Some m"
    and d: "dom (id2name s) = {0..<total_Legs s}" and z: "0 \<le> total_Legs s"
    by (simp_all add: Legs_static_inv_def)
  from d have nt: "id2name s (total_Legs s) = None" by (auto simp: dom_def)
  have nn: "\<And>i. id2name s i \<noteq> Some n"
    using None iff by (metis option.distinct(1))
  have ni: "\<And>m. name2id s m \<noteq> Some (total_Legs s)"
    using nt iff by (metis option.distinct(1))
  have "dom ((id2name s)(total_Legs s \<mapsto> n)) = {0..<total_Legs s + 1}"
    using d z by auto
  moreover have "\<forall>m i. ((name2id s)(n \<mapsto> total_Legs s)) m = Some i \<longleftrightarrow>
      ((id2name s)(total_Legs s \<mapsto> n)) i = Some m"
    using iff nn ni by auto
  ultimately show ?thesis
    using None z by (simp add: Legs_name_def Let_def Legs_static_inv_def)
qed

lemma Legs_names_Nil: "Legs_names [] s = s"
  by (simp add: Legs_names_def)

lemma Legs_names_Cons: "Legs_names (n # ns) s = Legs_names ns (snd (Legs_name n s))"
  by (simp add: Legs_names_def)

lemma Legs_static_inv_Legs_names:
  "Legs_static_inv s \<Longrightarrow> Legs_static_inv (Legs_names ns s)"
  by (induction ns arbitrary: s)
    (simp_all add: Legs_names_Nil Legs_names_Cons Legs_static_inv_Legs_name)

lemma Legs_static_inv_reachable: "Legs_static_inv (Legs_names ns Legs_static_init)"
  by (simp add: Legs_static_inv_Legs_names Legs_static_inv_init)

lemma name2id_Legs_names_mono:
  "name2id s m = Some i \<Longrightarrow> name2id (Legs_names ns s) m = Some i"
  by (induction ns arbitrary: s)
    (simp_all add: Legs_names_Nil Legs_names_Cons name2id_Legs_name_mono)

lemma Legs_name_twice:
  "Legs_name n (Legs_names ms (snd (Legs_name n s))) =
     (fst (Legs_name n s), Legs_names ms (snd (Legs_name n s)))"
proof -
  have "name2id (Legs_names ms (snd (Legs_name n s))) n = Some (id_Legs (fst (Legs_name n s)))"
    by (intro name2id_Legs_names_mono name2id_Legs_name)
  then show ?thesis by (simp add: Legs_name_known)
qed

lemma Legs_name_distinct:
  assumes "Legs_static_inv s" "n1 \<noteq> n2"
  shows "id_Legs (fst (Legs_name n1 s)) \<noteq>
         id_Legs (fst (Legs_name n2 (Legs_names ms (snd (Legs_name n1 s)))))"
proof
  let ?s2 = "Legs_names ms (snd (Legs_name n1 s))"
  let ?s3 = "snd (Legs_name n2 ?s2)"
  assume eq: "id_Legs (fst (Legs_name n1 s)) = id_Legs (fst (Legs_name n2 ?s2))"
  have inv: "Legs_static_inv ?s3"
    using assms(1)
    by (intro Legs_static_inv_Legs_name Legs_static_inv_Legs_names)
  have "name2id ?s3 n1 = Some (id_Legs (fst (Legs_name n1 s)))"
    by (intro name2id_Legs_name_mono name2id_Legs_names_mono name2id_Legs_name)
  moreover have "name2id ?s3 n2 = Some (id_Legs (fst (Legs_name n2 ?s2)))"
    by (rule name2id_Legs_name)
  ultimately have "id2name ?s3 (id_Legs (fst (Legs_name n1 s))) = Some n1"
    and "id2name ?s3 (id_Legs (fst (Legs_name n1 s))) = Some n2"
    using inv eq by (simp_all add: Legs_static_inv_def)
  with assms(2) show False by simp
qed

lemma Legs_static_bij:
  assumes "Legs_static_inv s"
  shows "bij_betw (\<lambda>n. the (name2id s n)) (dom (name2id s)) (dom (id2name s))"
proof (rule bij_betw_byWitness [where f' = "\<lambda>i. the (id2name s i)"])
  from assms have d1: "\<And>m i. name2id s m = Some i \<Longrightarrow> id2name s i = Some m"
    and d2: "\<And>m i. id2name s i = Some m \<Longrightarrow> name2id s m = Some i"
    by (simp_all add: Legs_static_inv_def)
  show "\<forall>n\<in>dom (name2id s). the (id2name s (the (name2id s n))) = n"
    using d1 by fastforce
  show "\<forall>i\<in>dom (id2name s). the (name2id s (the (id2name s i))) = i"
    using d2 by fastforce
  show "(\<lambda>n. the (name2id s n)) ` dom (name2id s) \<subseteq> dom (id2name s)"
    using d1 by fastforce
  show "(\<lambda>i. the (id2name s i)) ` dom (id2name s) \<subseteq> dom (name2id s)"
    using d2 by fastforce
qed

lemma display_known: "id2name s (id_Legs l) = Some n \<Longrightarrow> display s l = n"
  by (simp add: display_def ostream_Legs_def)

lemma display_unknown:
  "id2name s (id_Legs l) = None \<Longrightarrow> display s l = ''UserDefinedLeg'' @ show_int (id_Legs l)"
  by (simp add: display_def ostream_Legs_def)

lemma display_Legs_name:
  assumes "Legs_static_inv s"
  shows "display (Legs_names ms (snd (Legs_name n s))) (fst (Legs_name n s)) = n"
proof -
  let ?s2 = "Legs_names ms (snd (Legs_name n s))"
  have "Legs_static_inv ?s2"
    using assms by (intro Legs_static_inv_Legs_name Legs_static_inv_Legs_names)
  moreover have "name2id ?s2 n = Some (id_Legs (fst (Legs_name n s)))"
    by (intro name2id_Legs_names_mono name2id_Legs_name)
  ultimately have "id2name ?s2 (id_Legs (fst (Legs_name n s))) = Some n"
    by (simp add: Legs_static_inv_def)
  then show ?thesis by (rule display_known)
qed

text \<open>
  C3. In every state of the registry that constructions \<open>Legs(name)\<close> lead to from the
  initial one: constructing \<open>Legs(n)\<close> a second time, directly or after further
  constructions, returns the same identity and leaves the registry as it is; two different
  names get different ids; a name that is not registered gets the current value of the
  counter, the counter is incremented, and the name and the id are entered into both
  tables; the two tables are inverse to each other, a bijection between the registered
  names and the assigned ids, which are the values \<open>0, \<dots>, total - 1\<close>.
\<close>

theorem registry_bijection:
  assumes "s = Legs_names ns Legs_static_init"
  shows "Legs_name n (snd (Legs_name n s)) = (fst (Legs_name n s), snd (Legs_name n s)) \<and>
     Legs_name n (Legs_names ms (snd (Legs_name n s))) =
       (fst (Legs_name n s), Legs_names ms (snd (Legs_name n s))) \<and>
     (n1 \<noteq> n2 \<longrightarrow>
        id_Legs (fst (Legs_name n1 s)) \<noteq>
        id_Legs (fst (Legs_name n2 (Legs_names ms (snd (Legs_name n1 s)))))) \<and>
     (name2id s n = None \<longrightarrow>
        Legs_name n s =
          (Legs (total_Legs s),
           s\<lparr> total_Legs := total_Legs s + 1,
              name2id := (name2id s)(n \<mapsto> total_Legs s),
              id2name := (id2name s)(total_Legs s \<mapsto> n) \<rparr>)) \<and>
     (\<forall>m i. name2id s m = Some i \<longleftrightarrow> id2name s i = Some m) \<and>
     bij_betw (\<lambda>m. the (name2id s m)) (dom (name2id s)) (dom (id2name s)) \<and>
     dom (id2name s) = {0..<total_Legs s}"
proof -
  have inv: "Legs_static_inv s"
    unfolding assms by (rule Legs_static_inv_reachable)
  have c1: "Legs_name n (snd (Legs_name n s)) = (fst (Legs_name n s), snd (Legs_name n s))"
    using Legs_name_twice [of n "[]" s] by (simp add: Legs_names_Nil)
  have c2: "Legs_name n (Legs_names ms (snd (Legs_name n s))) =
       (fst (Legs_name n s), Legs_names ms (snd (Legs_name n s)))"
    by (rule Legs_name_twice)
  have c3: "n1 \<noteq> n2 \<longrightarrow>
        id_Legs (fst (Legs_name n1 s)) \<noteq>
        id_Legs (fst (Legs_name n2 (Legs_names ms (snd (Legs_name n1 s)))))"
    using Legs_name_distinct [OF inv] by blast
  have c4: "name2id s n = None \<longrightarrow>
        Legs_name n s =
          (Legs (total_Legs s),
           s\<lparr> total_Legs := total_Legs s + 1,
              name2id := (name2id s)(n \<mapsto> total_Legs s),
              id2name := (id2name s)(total_Legs s \<mapsto> n) \<rparr>)"
    by (simp add: Legs_name_fresh)
  have c5: "\<forall>m i. name2id s m = Some i \<longleftrightarrow> id2name s i = Some m"
    and c7: "dom (id2name s) = {0..<total_Legs s}"
    using inv by (simp_all add: Legs_static_inv_def)
  have c6: "bij_betw (\<lambda>m. the (name2id s m)) (dom (name2id s)) (dom (id2name s))"
    using inv by (rule Legs_static_bij)
  show ?thesis
    by (intro conjI c1 c2 c3 c4 c5 c6 c7)
qed

text \<open>After \<open>Phy\<close>, \<open>Left\<close> and \<open>Right\<close>, the name \<open>Up\<close> gets the id 3; a second
  \<open>Legs("Up")\<close> returns the id 3 again and changes nothing; \<open>Down\<close> gets another id.\<close>

theorem registry_bijection_witness:
  "Legs_name ''Up'' (Legs_names [''Phy'', ''Left'', ''Right''] Legs_static_init) =
     (Legs 3,
      \<lparr> total_Legs = 4,
        name2id = [''Phy'' \<mapsto> 0, ''Left'' \<mapsto> 1, ''Right'' \<mapsto> 2, ''Up'' \<mapsto> 3],
        id2name = [0 \<mapsto> ''Phy'', 1 \<mapsto> ''Left'', 2 \<mapsto> ''Right'', 3 \<mapsto> ''Up''] \<rparr>) \<and>
   Legs_name ''Up''
     (snd (Legs_name ''Up'' (Legs_names [''Phy'', ''Left'', ''Right''] Legs_static_init))) =
     (Legs 3,
      snd (Legs_name ''Up'' (Legs_names [''Phy'', ''Left'', ''Right''] Legs_static_init))) \<and>
   id_Legs (fst (Legs_name ''Down'' (Legs_names [''Left'']
     (snd (Legs_name ''Up'' (Legs_names [''Phy'', ''Left'', ''Right''] Legs_static_init)))))) \<noteq> 3"
proof -
  let ?s = "Legs_names [''Phy'', ''Left'', ''Right''] Legs_static_init"
  have s: "?s = \<lparr> total_Legs = 3,
        name2id = [''Phy'' \<mapsto> 0, ''Left'' \<mapsto> 1, ''Right'' \<mapsto> 2],
        id2name = [0 \<mapsto> ''Phy'', 1 \<mapsto> ''Left'', 2 \<mapsto> ''Right''] \<rparr>"
    by (simp add: Legs_names_def Legs_name_def Let_def Legs_static_init_def)
  have f: "name2id ?s ''Up'' = None"
    by (simp add: s)
  have d: "''Up'' \<noteq> ''Down''"
    by simp
  note c = registry_bijection [of ?s "[''Phy'', ''Left'', ''Right'']" "''Up''" "[''Left'']"
      "''Up''" "''Down''", OF refl]
  from c f have e: "Legs_name ''Up'' ?s =
     (Legs 3,
      \<lparr> total_Legs = 4,
        name2id = [''Phy'' \<mapsto> 0, ''Left'' \<mapsto> 1, ''Right'' \<mapsto> 2, ''Up'' \<mapsto> 3],
        id2name = [0 \<mapsto> ''Phy'', 1 \<mapsto> ''Left'', 2 \<mapsto> ''Right'', 3 \<mapsto> ''Up''] \<rparr>)"
    by (simp add: s)
  from c have t: "Legs_name ''Up'' (snd (Legs_name ''Up'' ?s)) =
      (fst (Legs_name ''Up'' ?s), snd (Legs_name ''Up'' ?s))"
    by blast
  from c d have n: "id_Legs (fst (Legs_name ''Up'' ?s)) \<noteq>
      id_Legs (fst (Legs_name ''Down'' (Legs_names [''Left''] (snd (Legs_name ''Up'' ?s)))))"
    by blast
  have i: "fst (Legs_name ''Up'' ?s) = Legs 3"
    by (simp add: e)
  from t i have "Legs_name ''Up'' (snd (Legs_name ''Up'' ?s)) =
      (Legs 3, snd (Legs_name ''Up'' ?s))" by simp
  moreover from n i have "id_Legs (fst (Legs_name ''Down'' (Legs_names [''Left'']
      (snd (Legs_name ''Up'' ?s))))) \<noteq> 3" by simp
  ultimately show ?thesis using e by blast
qed

text \<open>
  C7. In every state of the registry that constructions \<open>Legs(name)\<close> lead to from the
  initial one, the identity constructed for a name \<open>n\<close> is displayed as \<open>n\<close>, directly
  after its construction and after any further constructions. In any state of the
  registry at all, an identity whose id has no entry in \<^verbatim>\<open>id2name\<close> is displayed as
  \<^verbatim>\<open>UserDefinedLeg\<close> followed by the id in decimal, and an identity whose id has an
  entry is displayed as that entry: \<open>display\<close> has no failing case.
\<close>

theorem display_round_trip:
  assumes "s = Legs_names ns Legs_static_init"
  shows "display (snd (Legs_name n s)) (fst (Legs_name n s)) = n \<and>
     display (Legs_names ms (snd (Legs_name n s))) (fst (Legs_name n s)) = n \<and>
     (id2name s' (id_Legs l) = None \<longrightarrow>
        display s' l = ''UserDefinedLeg'' @ show_int (id_Legs l)) \<and>
     (\<forall>m. id2name s' (id_Legs l) = Some m \<longrightarrow> display s' l = m)"
proof -
  have inv: "Legs_static_inv s"
    unfolding assms by (rule Legs_static_inv_reachable)
  have c1: "display (snd (Legs_name n s)) (fst (Legs_name n s)) = n"
    using display_Legs_name [OF inv, of "[]" n] by (simp add: Legs_names_Nil)
  have c2: "display (Legs_names ms (snd (Legs_name n s))) (fst (Legs_name n s)) = n"
    using inv by (rule display_Legs_name)
  have c3: "id2name s' (id_Legs l) = None \<longrightarrow>
        display s' l = ''UserDefinedLeg'' @ show_int (id_Legs l)"
    by (simp add: display_unknown)
  have c4: "\<forall>m. id2name s' (id_Legs l) = Some m \<longrightarrow> display s' l = m"
    by (simp add: display_known)
  show ?thesis
    by (intro conjI c1 c2 c3 c4)
qed

text \<open>After \<open>Phy\<close>, \<open>Left\<close> and \<open>Right\<close>: \<open>Legs("Up")\<close> is displayed as \<open>Up\<close>, and
  the unregistered ids 42 and -1 (the id of a default-constructed \<open>Legs\<close>) get the
  synthetic labels.\<close>

theorem display_round_trip_witness:
  "display (snd (Legs_name ''Up'' (Legs_names [''Phy'', ''Left'', ''Right''] Legs_static_init)))
     (fst (Legs_name ''Up'' (Legs_names [''Phy'', ''Left'', ''Right''] Legs_static_init))) =
     ''Up'' \<and>
   display (Legs_names [''Phy'', ''Left'', ''Right''] Legs_static_init) (Legs 42) =
     ''UserDefinedLeg42'' \<and>
   display (Legs_names [''Phy'', ''Left'', ''Right''] Legs_static_init) (Legs (- 1)) =
     ''UserDefinedLeg-1''"
proof -
  let ?s = "Legs_names [''Phy'', ''Left'', ''Right''] Legs_static_init"
  have s: "?s = \<lparr> total_Legs = 3,
        name2id = [''Phy'' \<mapsto> 0, ''Left'' \<mapsto> 1, ''Right'' \<mapsto> 2],
        id2name = [0 \<mapsto> ''Phy'', 1 \<mapsto> ''Left'', 2 \<mapsto> ''Right''] \<rparr>"
    by (simp add: Legs_names_def Legs_name_def Let_def Legs_static_init_def)
  have u42: "id2name ?s (id_Legs (Legs 42)) = None"
    and u1: "id2name ?s (id_Legs (Legs (- 1))) = None"
    by (simp_all add: s)
  have p42: "show_int 42 = ''42''" and p1: "show_int (- 1) = ''-1''"
    by (simp_all add: show_int_def show_nat.simps)
  from display_round_trip [of ?s "[''Phy'', ''Left'', ''Right'']" "''Up''" "[]" ?s "Legs 42",
      OF refl] u42 p42
  have a: "display (snd (Legs_name ''Up'' ?s)) (fst (Legs_name ''Up'' ?s)) = ''Up''"
    and b: "display ?s (Legs 42) = ''UserDefinedLeg42''"
    by simp_all
  from display_round_trip [of ?s "[''Phy'', ''Left'', ''Right'']" "''Up''" "[]" ?s
      "Legs (- 1)", OF refl] u1 p1
  have c: "display ?s (Legs (- 1)) = ''UserDefinedLeg-1''"
    by simp
  from a b c show ?thesis by blast
qed

end
